theory Spec2Isabelle
  imports Complex_Main "HOL-Library.AList" "HOL-Library.Char_ord" "HOL-Library.List_Lexorder"
    "HOL-Library.Product_Lexorder"
begin

section \<open>Documents of the point-of-sale backend (app.py)\<close>

text \<open>
  The backend keeps two collections per tenant: \<open>products\<close>, keyed by the upper-cased
  item number, and \<open>sales\<close>, keyed by a store-generated id. Documents are Python
  dictionaries read with \<open>.get(key, default)\<close>; a field that may be missing is an
  \<open>option\<close> here and every default of the source is written out where it is read.
  Fields hold values of their expected JSON type (text for item numbers and names,
  integers for quantities, numbers for prices); prices are exact rationals, so the
  rounding of Python floats is not part of the model. Keys of a dictionary that no
  function under study reads (image URLs, selling price of a product) are left out.
\<close>

record line_item =
  item_number :: "string option"
  quantity :: "int option"
  selling_price :: "rat option"
  import_price :: "rat option"

record product =
  p_item_name :: "string option"
  p_quantity :: "int option"
  p_import_price :: "rat option"

record sale =
  items :: "line_item list"
  total_amount :: rat
  timestamp :: rat

record store =
  products :: "string \<rightharpoonup> product"
  sales :: "(string \<times> sale) list"

text \<open>
  \<open>str.upper()\<close> on ASCII text: the letters a to z move to A to Z, every other
  character stays.
\<close>

definition upper_char :: "char \<Rightarrow> char" where
  "upper_char c =
     (let n = (of_char c :: nat) in if 97 \<le> n \<and> n \<le> 122 then char_of (n - 32) else c)"

definition upper :: "string \<Rightarrow> string" where
  "upper s = map upper_char s"

subsection \<open>Exceptions and responses\<close>

text \<open>
  \<open>ValueError\<close> carries its message, which the endpoints send back. Every other
  exception (\<open>AttributeError\<close> from \<open>None.upper()\<close>, \<open>TypeError\<close> from
  \<open>int(None)\<close> and \<open>float(None)\<close>, \<open>KeyError\<close>, \<open>OverflowError\<close>, the store's
  own \<open>NotFound\<close> when an update names a missing document) reaches the generic
  handler, which answers with status 500.
\<close>

datatype error =
    ValueError string
  | AttributeError
  | TypeError
  | KeyError string
  | OverflowError
  | NotFound string

datatype response =
    Success string
  | Client_error nat string
  | Server_error error

subsection \<open>Transactions of the document store\<close>

text \<open>
  A function decorated with \<open>firestore.transactional\<close> reads the committed state and
  stages writes; the staged writes are applied in order, all or none, when the function
  returns, and nothing is applied when it raises. \<open>transaction.update\<close> requires the
  document to exist (the commit fails otherwise); \<open>set\<close> creates or replaces;
  \<open>delete\<close> accepts a missing document. \<open>Increment n\<close> adds \<open>n\<close> to a numeric
  field and stores \<open>n\<close> when the field is missing.
\<close>

datatype tx_write =
    Update_quantity string int
  | Increment_quantity string int
  | Set_sale string sale
  | Delete_sale string
  | Delete_product string

fun apply_write :: "store \<Rightarrow> tx_write \<Rightarrow> error + store" where
  "apply_write s (Update_quantity k n) =
     (case products s k of
        None \<Rightarrow> Inl (NotFound k)
      | Some p \<Rightarrow> Inr (s\<lparr>products := (products s)(k \<mapsto> p\<lparr>p_quantity := Some n\<rparr>)\<rparr>))"
| "apply_write s (Increment_quantity k n) =
     (case products s k of
        None \<Rightarrow> Inl (NotFound k)
      | Some p \<Rightarrow>
          Inr (s\<lparr>products := (products s)(k \<mapsto>
                 p\<lparr>p_quantity := Some (case p_quantity p of None \<Rightarrow> n | Some q \<Rightarrow> q + n)\<rparr>)\<rparr>))"
| "apply_write s (Set_sale k v) = Inr (s\<lparr>sales := AList.update k v (sales s)\<rparr>)"
| "apply_write s (Delete_sale k) = Inr (s\<lparr>sales := AList.delete k (sales s)\<rparr>)"
| "apply_write s (Delete_product k) = Inr (s\<lparr>products := (products s)(k := None)\<rparr>)"

fun commit :: "store \<Rightarrow> tx_write list \<Rightarrow> error + store" where
  "commit s [] = Inr s"
| "commit s (w # ws) =
     (case apply_write s w of Inl e \<Rightarrow> Inl e | Inr s' \<Rightarrow> commit s' ws)"

definition transactional :: "store \<Rightarrow> error + tx_write list \<Rightarrow> error + store" where
  "transactional s body = (case body of Inl e \<Rightarrow> Inl e | Inr ws \<Rightarrow> commit s ws)"

section \<open>add_update_product\<close>

text \<open>
  The form of the product page. \<open>product_ref.set(product_data, merge=True)\<close> writes
  the fields the form carries and keeps the others of an existing document. The upload
  and removal of images around it touch the blob store only.
\<close>

record product_form =
  f_item_number :: "string option"
  f_item_name :: "string option"
  f_quantity :: "int option"
  f_import_price :: "rat option"

definition merge_product :: "product option \<Rightarrow> product_form \<Rightarrow> product" where
  "merge_product existing product_data =
     (let old = (case existing of
                   None \<Rightarrow> \<lparr>p_item_name = None, p_quantity = None, p_import_price = None\<rparr>
                 | Some p \<Rightarrow> p)
      in \<lparr>p_item_name = (case f_item_name product_data of None \<Rightarrow> p_item_name old
                           | Some v \<Rightarrow> Some v),
          p_quantity = (case f_quantity product_data of None \<Rightarrow> p_quantity old
                          | Some v \<Rightarrow> Some v),
          p_import_price = (case f_import_price product_data of None \<Rightarrow> p_import_price old
                              | Some v \<Rightarrow> Some v)\<rparr>)"

definition add_update_product :: "store \<Rightarrow> product_form \<Rightarrow> response \<times> store" where
  "add_update_product s product_data =
     (let item_number = upper (case f_item_number product_data of None \<Rightarrow> [] | Some n \<Rightarrow> n)
      in if item_number = [] then (Client_error 400 ''Item Number is required.'', s)
         else (Success ''Product saved successfully.'',
               s\<lparr>products := (products s)(item_number \<mapsto>
                    merge_product (products s item_number) product_data)\<rparr>))"

section \<open>record_sale\<close>

text \<open>\<open>int(product_data.get('quantity', 0))\<close>, the stock the transaction reads.\<close>

definition current_quantity :: "product \<Rightarrow> int" where
  "current_quantity product_data =
     (case p_quantity product_data of None \<Rightarrow> 0 | Some q \<Rightarrow> q)"

text \<open>\<open>int(item.get('quantity', 0))\<close>.\<close>

definition quantity_sold :: "line_item \<Rightarrow> int" where
  "quantity_sold item = (case quantity item of None \<Rightarrow> 0 | Some q \<Rightarrow> q)"

text \<open>\<open>item.get('item_number', '').upper()\<close>, the key of the product document.\<close>

definition product_key :: "line_item \<Rightarrow> string" where
  "product_key item = upper (case item_number item of None \<Rightarrow> [] | Some n \<Rightarrow> n)"

text \<open>The text an f-string gives for \<open>product_data.get('item_name')\<close>.\<close>

definition format_name :: "string option \<Rightarrow> string" where
  "format_name n = (case n of None \<Rightarrow> ''None'' | Some t \<Rightarrow> t)"

text \<open>
  One pass of the first loop of \<open>update_in_transaction\<close>: read the product, check the
  stock, and return the key, the new quantity to stage and the line item with its
  \<open>import_price\<close> overwritten from the product.
\<close>

definition read_item :: "store \<Rightarrow> line_item \<Rightarrow> error + (string \<times> int \<times> line_item)" where
  "read_item s item =
     (let k = product_key item in
      case products s k of
        None \<Rightarrow> Inl (ValueError (''Product '' @ k @ '' not found.''))
      | Some product_data \<Rightarrow>
          if current_quantity product_data < quantity_sold item
          then Inl (ValueError (''Not enough stock for '' @
                  format_name (p_item_name product_data) @ ''.''))
          else Inr (k, current_quantity product_data - quantity_sold item,
                 item\<lparr>import_price :=
                   Some (case p_import_price product_data of None \<Rightarrow> 0 | Some p \<Rightarrow> p)\<rparr>))"

text \<open>
  The first loop, threading the dictionary \<open>product_refs_to_update\<close> (an assignment
  to a key already present replaces its value) and collecting the rewritten payload.
\<close>

fun first_loop ::
  "store \<Rightarrow> line_item list \<Rightarrow> (string \<rightharpoonup> int) \<Rightarrow> error + ((string \<rightharpoonup> int) \<times> line_item list)"
where
  "first_loop s [] refs = Inr (refs, [])"
| "first_loop s (item # rest) refs =
     (case read_item s item of
        Inl e \<Rightarrow> Inl e
      | Inr (k, new_quantity, item') \<Rightarrow>
          (case first_loop s rest (refs(k \<mapsto> new_quantity)) of
             Inl e \<Rightarrow> Inl e
           | Inr (refs', payload) \<Rightarrow> Inr (refs', item' # payload)))"

text \<open>
  An integer of a document is a signed 64-bit number: \<open>transaction.update\<close> and
  \<open>transaction.set\<close> encode the values they are given when they are called, and
  the encoding of a Python integer outside that range raises \<open>ValueError\<close> (its
  message also carries the number, left out here).
\<close>

definition in_int64 :: "int \<Rightarrow> bool" where
  "in_int64 n \<longleftrightarrow> - 9223372036854775808 \<le> n \<and> n \<le> 9223372036854775807"

text \<open>
  The second loop: \<open>item.get('item_number').upper()\<close> has no default, nor have
  \<open>float(item.get('selling_price'))\<close> and \<open>int(item.get('quantity'))\<close>; the update
  is staged, and its quantity encoded, before the amount is computed.
\<close>

fun second_loop ::
  "(string \<rightharpoonup> int) \<Rightarrow> line_item list \<Rightarrow> tx_write list \<Rightarrow> rat \<Rightarrow> error + (tx_write list \<times> rat)"
where
  "second_loop refs [] ws total_sale_amount = Inr (ws, total_sale_amount)"
| "second_loop refs (item # rest) ws total_sale_amount =
     (case item_number item of
        None \<Rightarrow> Inl AttributeError
      | Some n \<Rightarrow>
          (case refs (upper n) of
             None \<Rightarrow> Inl (KeyError (upper n))
           | Some new_quantity \<Rightarrow>
               if \<not> in_int64 new_quantity then Inl (ValueError ''Value out of range'')
               else
                 (case selling_price item of
                    None \<Rightarrow> Inl TypeError
                  | Some price \<Rightarrow>
                      (case quantity item of
                         None \<Rightarrow> Inl TypeError
                       | Some q \<Rightarrow>
                           second_loop refs rest
                             (ws @ [Update_quantity (upper n) new_quantity])
                             (total_sale_amount + price * of_int q)))))"

text \<open>
  \<open>new_id\<close> is the id the store generates for the sale document and \<open>now\<close> is
  \<open>time.time()\<close>. \<open>transaction.set\<close> encodes the sale document, and so the
  quantity of each of its line items.
\<close>

definition encodable :: "line_item \<Rightarrow> bool" where
  "encodable item = (case quantity item of None \<Rightarrow> True | Some q \<Rightarrow> in_int64 q)"

definition update_in_transaction ::
  "store \<Rightarrow> string \<Rightarrow> rat \<Rightarrow> line_item list \<Rightarrow> error + tx_write list"
where
  "update_in_transaction s new_id now sale_items_payload =
     (case first_loop s sale_items_payload Map.empty of
        Inl e \<Rightarrow> Inl e
      | Inr (product_refs_to_update, payload) \<Rightarrow>
          (case second_loop product_refs_to_update payload [] 0 of
             Inl e \<Rightarrow> Inl e
           | Inr (ws, total_sale_amount) \<Rightarrow>
               if \<not> list_all encodable payload then Inl (ValueError ''Value out of range'')
               else Inr (ws @ [Set_sale new_id
                      \<lparr>items = payload, total_amount = total_sale_amount, timestamp = now\<rparr>])))"

definition record_sale :: "store \<Rightarrow> string \<Rightarrow> rat \<Rightarrow> line_item list \<Rightarrow> response \<times> store" where
  "record_sale s new_id now sale_items =
     (if sale_items = [] then (Client_error 400 ''Sale must contain at least one item.'', s)
      else
        (case transactional s (update_in_transaction s new_id now sale_items) of
           Inr s' \<Rightarrow> (Success ''Sale recorded successfully!'', s')
         | Inl (ValueError m) \<Rightarrow> (Client_error 400 m, s)
         | Inl e \<Rightarrow> (Server_error e, s)))"

section \<open>delete_sale\<close>

text \<open>
  The writes staged for one line item of the stored sale: the product document is
  addressed by the stored \<open>item_number\<close> as it is.
\<close>

definition restore_item :: "line_item \<Rightarrow> tx_write list" where
  "restore_item item =
     (case item_number item of
        None \<Rightarrow> []
      | Some n \<Rightarrow>
          if n \<noteq> [] \<and> quantity_sold item > 0
          then [Increment_quantity n (quantity_sold item)] else [])"

definition restore_stock_and_delete_sale :: "store \<Rightarrow> string \<Rightarrow> error + tx_write list" where
  "restore_stock_and_delete_sale s sale_id =
     (case map_of (sales s) sale_id of
        None \<Rightarrow> Inl (ValueError ''Sale record not found.'')
      | Some sale_data \<Rightarrow>
          Inr (concat (map restore_item (items sale_data)) @ [Delete_sale sale_id]))"

definition delete_sale :: "store \<Rightarrow> string \<Rightarrow> response \<times> store" where
  "delete_sale s sale_id =
     (case transactional s (restore_stock_and_delete_sale s sale_id) of
        Inr s' \<Rightarrow> (Success ''Sale deleted and stock restored.'', s')
      | Inl (ValueError m) \<Rightarrow> (Client_error 404 m, s)
      | Inl e \<Rightarrow> (Server_error e, s))"

section \<open>delete_product\<close>

text \<open>
  The query \<open>where('items', 'array_contains', {'item_number': item_number_upper})\<close>
  selects the sales whose \<open>items\<close> array has an element equal to the given value, that
  is a dictionary whose only key is \<open>item_number\<close>. The removal of the product's
  images from the blob store happens before the transaction and touches no document.
\<close>

definition array_contains_item_number :: "string \<Rightarrow> sale \<Rightarrow> bool" where
  "array_contains_item_number item_number_upper sale_data =
     (\<lparr>item_number = Some item_number_upper, quantity = None, selling_price = None,
       import_price = None\<rparr> \<in> set (items sale_data))"

definition delete_product_and_sales_transaction :: "store \<Rightarrow> string \<Rightarrow> error + tx_write list" where
  "delete_product_and_sales_transaction s item_number_upper =
     Inr (map (\<lambda>doc. Delete_sale (fst doc))
            (filter (\<lambda>doc. array_contains_item_number item_number_upper (snd doc)) (sales s))
          @ [Delete_product item_number_upper])"

definition delete_product :: "store \<Rightarrow> string \<Rightarrow> response \<times> store" where
  "delete_product s item_number_arg =
     (let item_number_upper = upper item_number_arg in
      case transactional s (delete_product_and_sales_transaction s item_number_upper) of
        Inr s' \<Rightarrow> (Success ''Product and associated sales deleted.'', s')
      | Inl e \<Rightarrow> (Server_error e, s))"

section \<open>get_sales\<close>

text \<open>
  A naive \<open>datetime\<close> at midnight is its year, month and day. The constructor accepts
  the years 1 to 9999 and the days of the month (its message for a year names the year;
  the number is left out here). \<open>local_timestamp\<close>, a parameter of the model, gives
  the epoch seconds of a local midnight on the machine that runs the service.
\<close>

type_synonym date = "int \<times> int \<times> int"

definition is_leap :: "int \<Rightarrow> bool" where
  "is_leap y = (y mod 4 = 0 \<and> (y mod 100 \<noteq> 0 \<or> y mod 400 = 0))"

definition days_in_month :: "int \<Rightarrow> int \<Rightarrow> int" where
  "days_in_month y m =
     (if m = 2 then (if is_leap y then 29 else 28)
      else if m = 4 \<or> m = 6 \<or> m = 9 \<or> m = 11 then 30 else 31)"

definition datetime :: "int \<Rightarrow> int \<Rightarrow> int \<Rightarrow> error + date" where
  "datetime y m d =
     (if \<not> (1 \<le> y \<and> y \<le> 9999) then Inl (ValueError ''year is out of range'')
      else if \<not> (1 \<le> m \<and> m \<le> 12) then Inl (ValueError ''month must be in 1..12'')
      else if \<not> (1 \<le> d \<and> d \<le> days_in_month y m)
      then Inl (ValueError ''day is out of range for month'')
      else Inr (y, m, d))"

text \<open>\<open>start_dt + timedelta(days=1)\<close>; past 9999-12-31 it raises \<open>OverflowError\<close>.\<close>

definition plus_one_day :: "date \<Rightarrow> error + date" where
  "plus_one_day dt =
     (case dt of (y, m, d) \<Rightarrow>
        if d < days_in_month y m then Inr (y, m, d + 1)
        else if m < 12 then Inr (y, m + 1, 1)
        else if y < 9999 then Inr (y + 1, 1, 1)
        else Inl OverflowError)"

text \<open>
  \<open>datetime.timestamp()\<close> of a naive \<open>datetime\<close>: to tell a repeated local hour
  from its first occurrence, it also converts the instant one day earlier, and for
  0001-01-01 that instant lies in the year 0, which no \<open>datetime\<close> holds; the call
  raises \<open>ValueError\<close>.
\<close>

definition dt_timestamp :: "(date \<Rightarrow> rat) \<Rightarrow> date \<Rightarrow> error + rat" where
  "dt_timestamp local_timestamp dt =
     (if dt = (1, 1, 1) then Inl (ValueError ''year 0 is out of range'')
      else Inr (local_timestamp dt))"

text \<open>
  The two \<open>where\<close> clauses: \<open>start_dt.timestamp()\<close> is computed first, then
  \<open>end_dt.timestamp()\<close>.
\<close>

definition where_timestamp ::
  "(date \<Rightarrow> rat) \<Rightarrow> date \<Rightarrow> date \<Rightarrow> error + (rat \<times> rat) option"
where
  "where_timestamp local_timestamp start_dt end_dt =
     (case dt_timestamp local_timestamp start_dt of
        Inl e \<Rightarrow> Inl e
      | Inr lo \<Rightarrow>
          (case dt_timestamp local_timestamp end_dt of
             Inl e \<Rightarrow> Inl e
           | Inr hi \<Rightarrow> Inr (Some (lo, hi))))"

text \<open>
  The bounds of the timestamp filter. The filters arrive as the numbers that
  \<open>strptime\<close> reads from the \<open>%Y-%m-%d\<close> or \<open>%Y-%m\<close> text (\<open>None\<close> when the
  parameter is missing or empty); \<open>strptime\<close> builds the \<open>datetime\<close> from them.
\<close>

definition filter_bounds ::
  "(date \<Rightarrow> rat) \<Rightarrow> date option \<Rightarrow> (int \<times> int) option \<Rightarrow> error + (rat \<times> rat) option"
where
  "filter_bounds local_timestamp date_filter month_filter =
     (case date_filter of
        Some (y, m, d) \<Rightarrow>
          (case datetime y m d of
             Inl e \<Rightarrow> Inl e
           | Inr start_dt \<Rightarrow>
               (case plus_one_day start_dt of
                  Inl e \<Rightarrow> Inl e
                | Inr end_dt \<Rightarrow> where_timestamp local_timestamp start_dt end_dt))
      | None \<Rightarrow>
          (case month_filter of
             Some (y, m) \<Rightarrow>
               (case datetime y m 1 of
                  Inl e \<Rightarrow> Inl e
                | Inr start_dt \<Rightarrow>
                    (let next_month_start_year = (if m = 12 then y + 1 else y);
                         next_month_start_month = (if m = 12 then 1 else m + 1)
                     in case datetime next_month_start_year next_month_start_month 1 of
                          Inl e \<Rightarrow> Inl e
                        | Inr end_dt \<Rightarrow> where_timestamp local_timestamp start_dt end_dt))
           | None \<Rightarrow> Inr None))"

text \<open>
  The query: the two \<open>where\<close> clauses on \<open>timestamp\<close>, then
  \<open>order_by('timestamp', DESCENDING)\<close>, which the store completes with the document id
  in the same direction.
\<close>

definition sales_query :: "store \<Rightarrow> (rat \<times> rat) option \<Rightarrow> (string \<times> sale) list" where
  "sales_query s bounds =
     rev (sort_key (\<lambda>doc. (timestamp (snd doc), fst doc))
       (case bounds of
          None \<Rightarrow> sales s
        | Some (lo, hi) \<Rightarrow>
            filter (\<lambda>doc. lo \<le> timestamp (snd doc) \<and> timestamp (snd doc) < hi) (sales s)))"

text \<open>The inner loop over the line items of one sale.\<close>

fun items_loop :: "line_item list \<Rightarrow> rat \<Rightarrow> rat" where
  "items_loop [] total_profit = total_profit"
| "items_loop (item # rest) total_profit =
     (let profit_per_item =
            (case selling_price item of None \<Rightarrow> 0 | Some p \<Rightarrow> p)
            - (case import_price item of None \<Rightarrow> 0 | Some p \<Rightarrow> p)
      in items_loop rest
           (total_profit + profit_per_item * of_int (quantity_sold item)))"

text \<open>The outer loop: append the sale (with its id) and add its profit.\<close>

fun sales_loop ::
  "(string \<times> sale) list \<Rightarrow> (string \<times> sale) list \<Rightarrow> rat \<Rightarrow> (string \<times> sale) list \<times> rat"
where
  "sales_loop [] sales_list total_profit = (sales_list, total_profit)"
| "sales_loop (doc # rest) sales_list total_profit =
     sales_loop rest (sales_list @ [doc]) (items_loop (items (snd doc)) total_profit)"

definition get_sales ::
  "(date \<Rightarrow> rat) \<Rightarrow> store \<Rightarrow> date option \<Rightarrow> (int \<times> int) option
     \<Rightarrow> error + ((string \<times> sale) list \<times> rat)"
where
  "get_sales local_timestamp s date_filter month_filter =
     (case filter_bounds local_timestamp date_filter month_filter of
        Inl e \<Rightarrow> Inl e
      | Inr bounds \<Rightarrow> Inr (sales_loop (sales_query s bounds) [] 0))"

section \<open>Auxiliary notions for the proofs\<close>

text \<open>
  What one pass of the first loop hands on, read off \<open>read_item\<close>: the rewritten line
  item and the quantity it stages.
\<close>

definition stamped :: "store \<Rightarrow> line_item \<Rightarrow> line_item" where
  "stamped s item = (case read_item s item of Inl e \<Rightarrow> item | Inr (k, n, item') \<Rightarrow> item')"

definition staged_quantity :: "store \<Rightarrow> line_item \<Rightarrow> int" where
  "staged_quantity s item = (case read_item s item of Inl e \<Rightarrow> 0 | Inr (k, n, item') \<Rightarrow> n)"

text \<open>
  The dictionary after the first loop: a key holds the quantity staged by the last line
  item that names it.
\<close>

definition last_staged ::
  "store \<Rightarrow> line_item list \<Rightarrow> (string \<rightharpoonup> int) \<Rightarrow> string \<rightharpoonup> int"
where
  "last_staged s its refs k =
     (case find (\<lambda>it. product_key it = k) (rev its) of
        None \<Rightarrow> refs k
      | Some it \<Rightarrow> Some (staged_quantity s it))"

definition sale_of :: "store \<Rightarrow> rat \<Rightarrow> line_item list \<Rightarrow> sale" where
  "sale_of s now its =
     \<lparr>items = map (stamped s) its,
      total_amount = (\<Sum>it\<leftarrow>its. the (selling_price it) * of_int (quantity_sold it)),
      timestamp = now\<rparr>"

definition has_fields :: "line_item \<Rightarrow> bool" where
  "has_fields it \<longleftrightarrow> item_number it \<noteq> None \<and> selling_price it \<noteq> None \<and> quantity it \<noteq> None"

text \<open>Every quantity the transaction of a sale hands to the store can be encoded.\<close>

definition fits :: "store \<Rightarrow> line_item list \<Rightarrow> bool" where
  "fits s its \<longleftrightarrow>
     list_all (\<lambda>it. in_int64 (the (last_staged s its Map.empty (product_key it))) \<and> encodable it)
       its"

definition sold :: "store \<Rightarrow> string \<Rightarrow> rat \<Rightarrow> line_item list \<Rightarrow> store" where
  "sold s new_id now its =
     s\<lparr>products := \<lambda>k. if k \<in> product_key ` set its
                        then map_option
                               (\<lambda>p. p\<lparr>p_quantity := Some (the (last_staged s its Map.empty k))\<rparr>)
                               (products s k)
                        else products s k,
       sales := AList.update new_id (sale_of s now its) (sales s)\<rparr>"

text \<open>The profit one line item adds in \<open>get_sales\<close>.\<close>

definition line_profit :: "line_item \<Rightarrow> rat" where
  "line_profit item =
     ((case selling_price item of None \<Rightarrow> 0 | Some p \<Rightarrow> p)
      - (case import_price item of None \<Rightarrow> 0 | Some p \<Rightarrow> p)) * of_int (quantity_sold item)"

section \<open>A small shop\<close>

text \<open>
  A machine whose local time is UTC: the days since 1970-01-01 of a civil date, times
  86400.
\<close>

definition days_from_civil :: "int \<Rightarrow> int \<Rightarrow> int \<Rightarrow> int" where
  "days_from_civil y m d =
     (let y' = (if m \<le> 2 then y - 1 else y);
          era = y' div 400;
          yoe = y' - era * 400;
          doy = (153 * ((m + 9) mod 12) + 2) div 5 + d - 1;
          doe = yoe * 365 + yoe div 4 - yoe div 100 + doy
      in era * 146097 + doe - 719468)"

definition utc_timestamp :: "date \<Rightarrow> rat" where
  "utc_timestamp dt = (case dt of (y, m, d) \<Rightarrow> of_int (days_from_civil y m d * 86400))"

definition shop :: store where
  "shop = \<lparr>products = [''A'' \<mapsto> \<lparr>p_item_name = Some ''Apple'', p_quantity = Some 10,
                                  p_import_price = Some 5\<rparr>,
                        ''B'' \<mapsto> \<lparr>p_item_name = Some ''Bread'', p_quantity = Some 4,
                                  p_import_price = Some 2\<rparr>],
           sales = []\<rparr>"

definition line :: "string \<Rightarrow> int \<Rightarrow> rat \<Rightarrow> line_item" where
  "line n q price =
     \<lparr>item_number = Some n, quantity = Some q, selling_price = Some price, import_price = None\<rparr>"

text \<open>Four sales around December 2023, as \<open>record_sale\<close> stores them.\<close>

definition winter_sale :: "rat \<Rightarrow> sale" where
  "winter_sale t =
     \<lparr>items = [\<lparr>item_number = Some ''A'', quantity = Some 3, selling_price = Some 8,
                import_price = Some 5\<rparr>],
      total_amount = 24, timestamp = t\<rparr>"

definition winter_shop :: store where
  "winter_shop =
     \<lparr>products = Map.empty,
      sales = [(''n30'', winter_sale 1701388799), (''d01'', winter_sale 1701388800),
               (''d31'', winter_sale 1704067199), (''j01'', winter_sale 1704067200)]\<rparr>"

text \<open>A line item whose client sent a price of its own, and the form that creates a product.\<close>

definition forged :: line_item where
  "forged = \<lparr>item_number = Some ''a'', quantity = Some 3, selling_price = Some 8,
             import_price = Some 1\<rparr>"

definition cherry_form :: product_form where
  "cherry_form = \<lparr>f_item_number = Some ''c'', f_item_name = Some ''Cherry'', f_quantity = Some 7,
                   f_import_price = Some 3\<rparr>"

section \<open>The loops and the commit\<close>

text \<open>
  \<open>read_item\<close> accepts a line item exactly when its product exists and holds enough
  stock; the first loop accepts a payload exactly when it accepts every line item, and
  stops at the first one it refuses.
\<close>


lemma read_item_Inr:
  "read_item s item = Inr r \<longleftrightarrow>
     (\<exists>p. products s (product_key item) = Some p \<and> quantity_sold item \<le> current_quantity p \<and>
        r = (product_key item, current_quantity p - quantity_sold item,
             item\<lparr>import_price := Some (case p_import_price p of None \<Rightarrow> 0 | Some x \<Rightarrow> x)\<rparr>))"
  by (auto simp: read_item_def Let_def split: option.splits)

lemma read_item_key: "read_item s item = Inr (k, n, item') \<Longrightarrow> k = product_key item"
  by (simp add: read_item_Inr) blast

lemma read_item_product: "read_item s it = Inr r \<Longrightarrow> products s (product_key it) \<noteq> None"
  by (auto simp: read_item_Inr)

lemma find_snoc:
  "find P (xs @ [x]) = (case find P xs of None \<Rightarrow> (if P x then Some x else None) | Some y \<Rightarrow> Some y)"
  by (induction xs) auto

lemma find_Some_holds: "find P xs = Some x \<Longrightarrow> P x \<and> x \<in> set xs"
  by (induction xs) (auto split: if_splits)

lemma last_staged_Cons:
  "last_staged s (it # rest) refs = last_staged s rest (refs(product_key it \<mapsto> staged_quantity s it))"
  by (rule ext) (simp add: last_staged_def find_snoc split: option.splits)

lemma first_loop_Inr:
  "first_loop s its refs = Inr (refs', payload) \<longleftrightarrow>
     (\<forall>it\<in>set its. \<exists>r. read_item s it = Inr r) \<and> refs' = last_staged s its refs \<and>
     payload = map (stamped s) its"
proof (induction its arbitrary: refs refs' payload)
  case Nil
  show ?case by (auto simp: last_staged_def)
next
  case (Cons it rest)
  show ?case
  proof (cases "read_item s it")
    case (Inl e)
    then show ?thesis by auto
  next
    case (Inr r)
    obtain k n it' where r: "r = (k, n, it')" by (cases r)
    have k: "k = product_key it" using Inr r read_item_key by blast
    have n: "n = staged_quantity s it" using Inr r by (simp add: staged_quantity_def)
    have i: "it' = stamped s it" using Inr r by (simp add: stamped_def)
    let ?refs = "refs(product_key it \<mapsto> staged_quantity s it)"
    have step: "first_loop s (it # rest) refs =
        (case first_loop s rest ?refs of
           Inl e \<Rightarrow> Inl e
         | Inr (refs', payload) \<Rightarrow> Inr (refs', stamped s it # payload))"
      using Inr r k n i by simp
    have here: "\<exists>r. read_item s it = Inr r" using Inr by blast
    show ?thesis
    proof (cases "first_loop s rest ?refs")
      case (Inl e)
      have "\<not> ((\<forall>x\<in>set rest. \<exists>r. read_item s x = Inr r))"
        using Inl Cons.IH [of ?refs "last_staged s rest ?refs" "map (stamped s) rest"]
        by (metis sum.distinct(1))
      moreover have "first_loop s (it # rest) refs = Inl e"
        unfolding step Inl by simp
      ultimately show ?thesis by simp
    next
      case (Inr res)
      obtain refs2 payload2 where res: "res = (refs2, payload2)" by (cases res)
      have ih: "(\<forall>x\<in>set rest. \<exists>r. read_item s x = Inr r) \<and>
                refs2 = last_staged s rest ?refs \<and> payload2 = map (stamped s) rest"
        using Inr res Cons.IH [of ?refs refs2 payload2] by blast
      have "first_loop s (it # rest) refs = Inr (refs2, stamped s it # payload2)"
        unfolding step Inr res by simp
      then show ?thesis using ih here unfolding last_staged_Cons by auto
    qed
  qed
qed

lemma first_loop_accepts:
  "\<forall>it\<in>set its. \<exists>r. read_item s it = Inr r \<Longrightarrow>
   first_loop s its refs = Inr (last_staged s its refs, map (stamped s) its)"
  by (simp only: first_loop_Inr)

lemma first_loop_InrD:
  "first_loop s its refs = Inr (refs', payload) \<Longrightarrow>
   (\<forall>it\<in>set its. \<exists>r. read_item s it = Inr r) \<and> refs' = last_staged s its refs \<and>
   payload = map (stamped s) its"
  using first_loop_Inr [of s its refs refs' payload] by blast

lemma first_loop_Inl:
  "\<forall>x\<in>set pre. \<exists>r. read_item s x = Inr r \<Longrightarrow> read_item s it = Inl e \<Longrightarrow>
   first_loop s (pre @ it # post) refs = Inl e"
proof (induction pre arbitrary: refs)
  case Nil
  then show ?case by simp
next
  case (Cons x pre)
  then obtain k n x' where "read_item s x = Inr (k, n, x')" by (metis list.set_intros(1) prod_cases3)
  with Cons show ?case by simp
qed

lemma stamped_fields:
  "item_number (stamped s it) = item_number it"
  "quantity (stamped s it) = quantity it"
  "selling_price (stamped s it) = selling_price it"
  "product_key (stamped s it) = product_key it"
  "quantity_sold (stamped s it) = quantity_sold it"
  by (auto simp: stamped_def read_item_def Let_def product_key_def quantity_sold_def
      split: option.splits)

lemma stamped_accepted:
  "read_item s it = Inr r \<Longrightarrow>
   \<exists>p. products s (product_key it) = Some p \<and>
       stamped s it = it\<lparr>import_price := Some (case p_import_price p of None \<Rightarrow> 0 | Some x \<Rightarrow> x)\<rparr> \<and>
       staged_quantity s it = current_quantity p - quantity_sold it \<and>
       quantity_sold it \<le> current_quantity p"
proof -
  assume a: "read_item s it = Inr r"
  then obtain p where p: "products s (product_key it) = Some p"
    "quantity_sold it \<le> current_quantity p"
    "r = (product_key it, current_quantity p - quantity_sold it,
          it\<lparr>import_price := Some (case p_import_price p of None \<Rightarrow> 0 | Some x \<Rightarrow> x)\<rparr>)"
    unfolding read_item_Inr by blast
  show ?thesis using p(1,2) a [unfolded p(3)] by (simp add: stamped_def staged_quantity_def)
qed

lemma last_staged_member:
  "it \<in> set its \<Longrightarrow>
   \<exists>x\<in>set its. product_key x = product_key it \<and>
      last_staged s its refs (product_key it) = Some (staged_quantity s x)"
proof -
  assume "it \<in> set its"
  then have "it \<in> set (rev its)" by simp
  then obtain x where "find (\<lambda>x. product_key x = product_key it) (rev its) = Some x"
    by (cases "find (\<lambda>x. product_key x = product_key it) (rev its)") (auto simp: find_None_iff)
  moreover from this have "x \<in> set (rev its) \<and> product_key x = product_key it"
    using find_Some_holds [of "\<lambda>x. product_key x = product_key it" "rev its" x] by simp
  ultimately show ?thesis by (auto simp: last_staged_def)
qed

lemma last_staged_distinct:
  assumes "distinct (map product_key its)" "it \<in> set its"
  shows "last_staged s its refs (product_key it) = Some (staged_quantity s it)"
proof -
  obtain x where x: "x \<in> set its" "product_key x = product_key it"
    "last_staged s its refs (product_key it) = Some (staged_quantity s x)"
    using last_staged_member [OF assms(2)] by blast
  have "x = it" using assms x(1,2) by (meson distinct_map inj_onD)
  with x(3) show ?thesis by simp
qed

text \<open>
  The second loop stages one update per line item, addressed by the upper-cased item
  number, and adds up the amount.
\<close>


lemma second_loop_Inr:
  "second_loop refs its ws tot = Inr (ws', tot') \<longleftrightarrow>
     (\<forall>it\<in>set its. item_number it \<noteq> None \<and> selling_price it \<noteq> None \<and> quantity it \<noteq> None \<and>
         refs (product_key it) \<noteq> None \<and> in_int64 (the (refs (product_key it)))) \<and>
     ws' = ws @ map (\<lambda>it. Update_quantity (product_key it) (the (refs (product_key it)))) its \<and>
     tot' = tot + (\<Sum>it\<leftarrow>its. the (selling_price it) * of_int (quantity_sold it))"
proof (induction its arbitrary: ws tot)
  case Nil
  show ?case by auto
next
  case (Cons it rest)
  show ?case
  proof (cases "item_number it \<noteq> None \<and> selling_price it \<noteq> None \<and> quantity it \<noteq> None \<and>
         refs (product_key it) \<noteq> None \<and> in_int64 (the (refs (product_key it)))")
    case False
    then have "\<exists>e. second_loop refs (it # rest) ws tot = Inl e"
      by (auto simp: product_key_def split: option.splits)
    with False show ?thesis by auto
  next
    case True
    then obtain n price q new_quantity where f: "item_number it = Some n" "selling_price it = Some price"
      "quantity it = Some q" "refs (product_key it) = Some new_quantity" "in_int64 new_quantity"
      by auto
    have k: "product_key it = upper n" using f by (simp add: product_key_def)
    have step: "second_loop refs (it # rest) ws tot =
       second_loop refs rest (ws @ [Update_quantity (product_key it) new_quantity])
         (tot + price * of_int q)"
      using f k by simp
    show ?thesis
      unfolding step Cons.IH using True f by (auto simp: quantity_sold_def algebra_simps)
  qed
qed

lemma second_loop_accepts:
  "\<forall>it\<in>set its. item_number it \<noteq> None \<and> selling_price it \<noteq> None \<and> quantity it \<noteq> None \<and>
         refs (product_key it) \<noteq> None \<and> in_int64 (the (refs (product_key it))) \<Longrightarrow>
   second_loop refs its ws tot =
     Inr (ws @ map (\<lambda>it. Update_quantity (product_key it) (the (refs (product_key it)))) its,
          tot + (\<Sum>it\<leftarrow>its. the (selling_price it) * of_int (quantity_sold it)))"
  by (simp only: second_loop_Inr)

lemma second_loop_InrD:
  "second_loop refs its ws tot = Inr (ws', tot') \<Longrightarrow>
     (\<forall>it\<in>set its. item_number it \<noteq> None \<and> selling_price it \<noteq> None \<and> quantity it \<noteq> None \<and>
         refs (product_key it) \<noteq> None \<and> in_int64 (the (refs (product_key it)))) \<and>
     ws' = ws @ map (\<lambda>it. Update_quantity (product_key it) (the (refs (product_key it)))) its \<and>
     tot' = tot + (\<Sum>it\<leftarrow>its. the (selling_price it) * of_int (quantity_sold it))"
  using second_loop_Inr [of refs its ws tot ws' tot'] by blast

lemma encodable_stamped: "encodable (stamped s it) = encodable it"
  by (simp add: encodable_def stamped_fields)

lemma update_in_transaction_Inr:
  "update_in_transaction s new_id now its = Inr ws \<longleftrightarrow>
     (\<forall>it\<in>set its. (\<exists>r. read_item s it = Inr r) \<and> has_fields it) \<and> fits s its \<and>
     ws = map (\<lambda>it. Update_quantity (product_key it)
                 (the (last_staged s its Map.empty (product_key it)))) its
          @ [Set_sale new_id (sale_of s now its)]"
proof (cases "first_loop s its Map.empty")
  case (Inl e)
  have "\<not> (\<forall>it\<in>set its. \<exists>r. read_item s it = Inr r)"
  proof
    assume a: "\<forall>it\<in>set its. \<exists>r. read_item s it = Inr r"
    from first_loop_accepts [OF a, of Map.empty] Inl show False by simp
  qed
  moreover have "update_in_transaction s new_id now its = Inl e"
    using Inl by (simp add: update_in_transaction_def)
  ultimately show ?thesis by auto
next
  case (Inr res)
  obtain refs payload where res: "res = (refs, payload)" by (cases res)
  have fl: "(\<forall>it\<in>set its. \<exists>r. read_item s it = Inr r)"
    "refs = last_staged s its Map.empty" "payload = map (stamped s) its"
    using first_loop_InrD [of s its Map.empty refs payload] Inr res by simp_all
  have dom: "\<forall>it\<in>set its. refs (product_key it) \<noteq> None"
  proof
    fix it assume "it \<in> set its"
    from last_staged_member [OF this, of s Map.empty] show "refs (product_key it) \<noteq> None"
      unfolding fl(2) by auto
  qed
  have enc: "list_all encodable payload \<longleftrightarrow> (\<forall>it\<in>set its. encodable it)"
    unfolding fl(3) by (simp add: list_all_iff encodable_stamped)
  have loop_cond: "(\<forall>it\<in>set payload. item_number it \<noteq> None \<and> selling_price it \<noteq> None \<and>
        quantity it \<noteq> None \<and> refs (product_key it) \<noteq> None \<and> in_int64 (the (refs (product_key it))))
      \<longleftrightarrow> (\<forall>it\<in>set its. has_fields it \<and> in_int64 (the (refs (product_key it))))"
    unfolding fl(3) using dom by (auto simp: stamped_fields has_fields_def)
  have fits: "fits s its \<longleftrightarrow>
      (\<forall>it\<in>set its. in_int64 (the (refs (product_key it)))) \<and> (\<forall>it\<in>set its. encodable it)"
    unfolding fits_def fl(2) by (auto simp: list_all_iff)
  have step: "update_in_transaction s new_id now its =
      (case second_loop refs payload [] 0 of
         Inl e \<Rightarrow> Inl e
       | Inr (ws, total_sale_amount) \<Rightarrow>
           if \<not> list_all encodable payload then Inl (ValueError ''Value out of range'')
           else Inr (ws @ [Set_sale new_id
                  \<lparr>items = payload, total_amount = total_sale_amount, timestamp = now\<rparr>]))"
    using Inr res by (simp add: update_in_transaction_def)
  show ?thesis
  proof (cases "second_loop refs payload [] 0")
    case (Inl e)
    have "\<not> (\<forall>it\<in>set payload. item_number it \<noteq> None \<and> selling_price it \<noteq> None \<and>
        quantity it \<noteq> None \<and> refs (product_key it) \<noteq> None \<and> in_int64 (the (refs (product_key it))))"
    proof
      assume a: "\<forall>it\<in>set payload. item_number it \<noteq> None \<and> selling_price it \<noteq> None \<and>
        quantity it \<noteq> None \<and> refs (product_key it) \<noteq> None \<and> in_int64 (the (refs (product_key it)))"
      from second_loop_accepts [OF a, of "[]" 0] Inl show False by simp
    qed
    then have "\<not> ((\<forall>it\<in>set its. has_fields it) \<and> fits s its)"
      unfolding loop_cond fits by blast
    moreover have "update_in_transaction s new_id now its = Inl e"
      unfolding step Inl by simp
    ultimately show ?thesis by auto
  next
    case (Inr res2)
    obtain ws2 tot where res2: "res2 = (ws2, tot)" by (cases res2)
    have sl: "\<forall>it\<in>set payload. item_number it \<noteq> None \<and> selling_price it \<noteq> None \<and>
        quantity it \<noteq> None \<and> refs (product_key it) \<noteq> None \<and> in_int64 (the (refs (product_key it)))"
      "ws2 = [] @ map (\<lambda>it. Update_quantity (product_key it) (the (refs (product_key it)))) payload"
      "tot = 0 + (\<Sum>it\<leftarrow>payload. the (selling_price it) * of_int (quantity_sold it))"
      using second_loop_InrD [of refs payload "[]" 0 ws2 tot] Inr res2 by simp_all
    have c: "\<forall>it\<in>set its. has_fields it \<and> in_int64 (the (refs (product_key it)))"
      using sl(1) unfolding loop_cond .
    show ?thesis
    proof (cases "list_all encodable payload")
      case False
      then have "\<not> fits s its" unfolding fits enc by blast
      moreover have "update_in_transaction s new_id now its = Inl (ValueError ''Value out of range'')"
        unfolding step Inr res2 using False by simp
      ultimately show ?thesis by auto
    next
      case True
      then have f: "fits s its" unfolding fits enc using c by blast
      have ws2: "ws2 = map (\<lambda>it. Update_quantity (product_key it)
                   (the (last_staged s its Map.empty (product_key it)))) its"
        unfolding sl(2) fl(3) fl(2) by (simp add: stamped_fields o_def)
      have tot: "\<lparr>items = payload, total_amount = tot, timestamp = now\<rparr> = sale_of s now its"
        unfolding sl(3) fl(3) by (simp add: sale_of_def stamped_fields o_def)
      have "update_in_transaction s new_id now its =
          Inr (ws2 @ [Set_sale new_id (sale_of s now its)])"
        unfolding step Inr res2 using tot True by simp
      then show ?thesis using fl(1) c f ws2 by auto
    qed
  qed
qed

text \<open>
  Committing the staged writes of a sale: every update finds its document, because the
  first loop has read it.
\<close>


lemma commit_append:
  "commit s (ws @ ws') = (case commit s ws of Inl e \<Rightarrow> Inl e | Inr s' \<Rightarrow> commit s' ws')"
  by (induction ws arbitrary: s) (auto split: sum.splits)

lemma commit_updates:
  "\<forall>it\<in>set its. products s (product_key it) \<noteq> None \<Longrightarrow>
   commit s (map (\<lambda>it. Update_quantity (product_key it) (f (product_key it))) its) =
     Inr (s\<lparr>products := \<lambda>k. if k \<in> product_key ` set its
                              then map_option (\<lambda>p. p\<lparr>p_quantity := Some (f k)\<rparr>) (products s k)
                              else products s k\<rparr>)"
proof (induction its arbitrary: s)
  case Nil
  show ?case by simp
next
  case (Cons it rest)
  then obtain p where p: "products s (product_key it) = Some p" by auto
  let ?s1 = "s\<lparr>products := (products s)(product_key it \<mapsto> p\<lparr>p_quantity := Some (f (product_key it))\<rparr>)\<rparr>"
  have rest: "\<forall>x\<in>set rest. products ?s1 (product_key x) \<noteq> None"
    using Cons.prems by simp
  have "commit s (map (\<lambda>it. Update_quantity (product_key it) (f (product_key it))) (it # rest)) =
        commit ?s1 (map (\<lambda>it. Update_quantity (product_key it) (f (product_key it))) rest)"
    using p by simp
  also have "\<dots> = Inr (?s1\<lparr>products := \<lambda>k. if k \<in> product_key ` set rest
                              then map_option (\<lambda>p. p\<lparr>p_quantity := Some (f k)\<rparr>) (products ?s1 k)
                              else products ?s1 k\<rparr>)"
    by (rule Cons.IH [OF rest])
  also have "\<dots> = Inr (s\<lparr>products := \<lambda>k. if k \<in> product_key ` set (it # rest)
                              then map_option (\<lambda>p. p\<lparr>p_quantity := Some (f k)\<rparr>) (products s k)
                              else products s k\<rparr>)"
  proof -
    have "(\<lambda>k. if k \<in> product_key ` set rest
               then map_option (\<lambda>p. p\<lparr>p_quantity := Some (f k)\<rparr>) (products ?s1 k)
               else products ?s1 k) =
          (\<lambda>k. if k \<in> product_key ` set (it # rest)
               then map_option (\<lambda>p. p\<lparr>p_quantity := Some (f k)\<rparr>) (products s k)
               else products s k)"
      using p by (intro ext) auto
    then show ?thesis by simp
  qed
  finally show ?case .
qed

lemma commit_sale:
  assumes "\<forall>it\<in>set its. \<exists>r. read_item s it = Inr r"
  shows "commit s (map (\<lambda>it. Update_quantity (product_key it)
                 (the (last_staged s its Map.empty (product_key it)))) its
          @ [Set_sale new_id (sale_of s now its)]) = Inr (sold s new_id now its)"
proof -
  have ex: "\<forall>it\<in>set its. products s (product_key it) \<noteq> None"
    using assms read_item_product by blast
  show ?thesis
    unfolding commit_append
      commit_updates [OF ex, of "\<lambda>k. the (last_staged s its Map.empty k)"]
    by (simp add: sold_def)
qed

lemma record_sale_Success:
  "record_sale s new_id now its = (Success m, s') \<longleftrightarrow>
     its \<noteq> [] \<and> (\<forall>it\<in>set its. (\<exists>r. read_item s it = Inr r) \<and> has_fields it) \<and>
     m = ''Sale recorded successfully!'' \<and> s' = sold s new_id now its \<and> fits s its"
proof (cases "its = []")
  case True
  then show ?thesis by (simp add: record_sale_def)
next
  case ne: False
  show ?thesis
  proof (cases "update_in_transaction s new_id now its")
    case (Inl e)
    have "\<not> ((\<forall>it\<in>set its. (\<exists>r. read_item s it = Inr r) \<and> has_fields it) \<and> fits s its)"
      using Inl update_in_transaction_Inr [of s new_id now its] by auto
    moreover have "fst (record_sale s new_id now its) \<noteq> Success m"
      using Inl ne by (cases e) (simp_all add: record_sale_def transactional_def)
    ultimately show ?thesis by (metis fst_conv)
  next
    case (Inr ws)
    have ok: "\<forall>it\<in>set its. (\<exists>r. read_item s it = Inr r) \<and> has_fields it"
      and f: "fits s its"
      and ws: "ws = map (\<lambda>it. Update_quantity (product_key it)
                 (the (last_staged s its Map.empty (product_key it)))) its
          @ [Set_sale new_id (sale_of s now its)]"
      using Inr update_in_transaction_Inr [of s new_id now its ws] by simp_all
    have r: "\<forall>it\<in>set its. \<exists>r. read_item s it = Inr r" using ok by blast
    have "record_sale s new_id now its =
        (Success ''Sale recorded successfully!'', sold s new_id now its)"
      using ne Inr commit_sale [OF r, of new_id now]
      by (simp add: record_sale_def transactional_def ws)
    then show ?thesis using ne ok f by auto
  qed
qed

lemma sales_sold: "map_of (sales (sold s new_id now its)) new_id = Some (sale_of s now its)"
  by (simp add: sold_def update_conv')

lemma sold_other: "k \<notin> product_key ` set its \<Longrightarrow> products (sold s new_id now its) k = products s k"
  by (simp add: sold_def)

lemma sold_quantity:
  assumes "distinct (map product_key its)" "it \<in> set its" "read_item s it = Inr r"
    "products s (product_key it) = Some p"
  shows "products (sold s new_id now its) (product_key it) =
           Some (p\<lparr>p_quantity := Some (current_quantity p - quantity_sold it)\<rparr>)"
proof -
  have "last_staged s its Map.empty (product_key it) = Some (staged_quantity s it)"
    using assms(1,2) by (rule last_staged_distinct)
  moreover have "staged_quantity s it = current_quantity p - quantity_sold it"
    using stamped_accepted [OF assms(3)] assms(4) by auto
  ultimately show ?thesis using assms(2,4) by (simp add: sold_def)
qed

section \<open>Recording a sale\<close>

subsection \<open>Rejected sales\<close>

lemma record_sale_failure_state:
  "snd (record_sale s new_id now its) \<noteq> s \<Longrightarrow> \<exists>m. fst (record_sale s new_id now its) = Success m"
  by (auto simp: record_sale_def split: sum.splits error.splits if_splits)

lemma record_sale_first_loop_error:
  assumes "\<forall>x\<in>set pre. \<exists>r. read_item s x = Inr r" "read_item s it = Inl (ValueError msg)"
  shows "record_sale s new_id now (pre @ it # post) = (Client_error 400 msg, s)"
  using first_loop_Inl [OF assms, of post Map.empty]
  by (simp add: record_sale_def transactional_def update_in_transaction_def)

lemma read_item_shop_A: "q \<le> 10 \<Longrightarrow> \<exists>r. read_item shop (line ''A'' q price) = Inr r"
  by (simp add: read_item_Inr shop_def line_def product_key_def upper_def upper_char_def
      quantity_sold_def current_quantity_def)

text \<open>
  Claim C3. \<open>record_sale\<close> answers an empty item list with status 400 and the
  message that a sale must contain at least one item. When the line items before
  \<open>it\<close> are accepted and the product of \<open>it\<close> does not exist, it answers 400 with
  a message that names the upper-cased item number; when that product exists and holds
  less than \<open>it\<close> requests, it answers 400 with a message that names the product by
  its \<open>item_name\<close>. Whenever the answer is not a success, the store is the one before
  the call: no quantity has changed and no sale document exists that did not before.
\<close>

theorem record_sale_rejections:
  "record_sale s new_id now [] = (Client_error 400 ''Sale must contain at least one item.'', s)
   \<and> ((\<forall>x\<in>set pre. \<exists>r. read_item s x = Inr r) \<and> products s (product_key it) = None \<longrightarrow>
        record_sale s new_id now (pre @ it # post) =
          (Client_error 400 (''Product '' @ product_key it @ '' not found.''), s))
   \<and> ((\<forall>x\<in>set pre. \<exists>r. read_item s x = Inr r) \<and> products s (product_key it) = Some p \<and>
        current_quantity p < quantity_sold it \<longrightarrow>
        record_sale s new_id now (pre @ it # post) =
          (Client_error 400 (''Not enough stock for '' @ format_name (p_item_name p) @ ''.''), s))
   \<and> ((\<forall>m. fst (record_sale s new_id now its) \<noteq> Success m) \<longrightarrow>
        snd (record_sale s new_id now its) = s)"
proof (intro conjI impI)
  show "record_sale s new_id now [] = (Client_error 400 ''Sale must contain at least one item.'', s)"
    by (simp add: record_sale_def)
next
  assume a: "(\<forall>x\<in>set pre. \<exists>r. read_item s x = Inr r) \<and> products s (product_key it) = None"
  then have "read_item s it = Inl (ValueError (''Product '' @ product_key it @ '' not found.''))"
    by (simp add: read_item_def)
  with a show "record_sale s new_id now (pre @ it # post) =
          (Client_error 400 (''Product '' @ product_key it @ '' not found.''), s)"
    using record_sale_first_loop_error by blast
next
  assume a: "(\<forall>x\<in>set pre. \<exists>r. read_item s x = Inr r) \<and> products s (product_key it) = Some p \<and>
        current_quantity p < quantity_sold it"
  then have "read_item s it =
      Inl (ValueError (''Not enough stock for '' @ format_name (p_item_name p) @ ''.''))"
    by (simp add: read_item_def)
  with a show "record_sale s new_id now (pre @ it # post) =
          (Client_error 400 (''Not enough stock for '' @ format_name (p_item_name p) @ ''.''), s)"
    using record_sale_first_loop_error by blast
next
  assume "\<forall>m. fst (record_sale s new_id now its) \<noteq> Success m"
  then show "snd (record_sale s new_id now its) = s"
    using record_sale_failure_state by blast
qed

theorem record_sale_rejections_witness:
  "record_sale shop ''s1'' 100 [] = (Client_error 400 ''Sale must contain at least one item.'', shop)
   \<and> (\<exists>r. read_item shop (line ''A'' 3 8) = Inr r)
   \<and> products shop (product_key (line ''c'' 1 8)) = None
   \<and> record_sale shop ''s1'' 100 ([line ''A'' 3 8] @ line ''c'' 1 8 # []) =
        (Client_error 400 ''Product C not found.'', shop)
   \<and> products shop (product_key (line ''A'' 11 8)) =
        Some \<lparr>p_item_name = Some ''Apple'', p_quantity = Some 10, p_import_price = Some 5\<rparr>
   \<and> current_quantity \<lparr>p_item_name = Some ''Apple'', p_quantity = Some 10, p_import_price = Some 5\<rparr>
        < quantity_sold (line ''A'' 11 8)
   \<and> record_sale shop ''s1'' 100 ([line ''A'' 3 8] @ line ''A'' 11 8 # []) =
        (Client_error 400 ''Not enough stock for Apple.'', shop)
   \<and> (\<forall>m. fst (record_sale shop ''s1'' 100 [line ''A'' 11 8]) \<noteq> Success m)
   \<and> snd (record_sale shop ''s1'' 100 [line ''A'' 11 8]) = shop"
proof -
  have one: "\<exists>r. read_item shop (line ''A'' 3 8) = Inr r"
    using read_item_shop_A [of 3 8] by simp
  then have pre: "\<forall>x\<in>set [line ''A'' 3 8]. \<exists>r. read_item shop x = Inr r"
    by simp
  have kc: "product_key (line ''c'' 1 8) = ''C''" by code_simp
  have ka: "product_key (line ''A'' 11 8) = ''A''" by code_simp
  have nc: "products shop (product_key (line ''c'' 1 8)) = None"
    unfolding kc by (simp add: shop_def)
  have pa: "products shop (product_key (line ''A'' 11 8)) =
        Some \<lparr>p_item_name = Some ''Apple'', p_quantity = Some 10, p_import_price = Some 5\<rparr>"
    unfolding ka by (simp add: shop_def)
  have lt: "current_quantity \<lparr>p_item_name = Some ''Apple'', p_quantity = Some 10, p_import_price = Some 5\<rparr>
        < quantity_sold (line ''A'' 11 8)"
    by (simp add: current_quantity_def quantity_sold_def line_def)
  have f: "fst (record_sale shop ''s1'' 100 [line ''A'' 11 8]) =
      Client_error 400 ''Not enough stock for Apple.''"
    by code_simp
  have nf: "\<forall>m. fst (record_sale shop ''s1'' 100 [line ''A'' 11 8]) \<noteq> Success m"
    unfolding f by simp
  note t1 = record_sale_rejections [of shop "''s1''" 100 "[line ''A'' 3 8]" "line ''c'' 1 8" "[]"
      "\<lparr>p_item_name = Some ''Apple'', p_quantity = Some 10, p_import_price = Some 5\<rparr>"
      "[line ''A'' 11 8]"]
  note t2 = record_sale_rejections [of shop "''s1''" 100 "[line ''A'' 3 8]" "line ''A'' 11 8" "[]"
      "\<lparr>p_item_name = Some ''Apple'', p_quantity = Some 10, p_import_price = Some 5\<rparr>"
      "[line ''A'' 11 8]"]
  have r1: "record_sale shop ''s1'' 100 ([line ''A'' 3 8] @ line ''c'' 1 8 # []) =
        (Client_error 400 ''Product C not found.'', shop)"
    using t1 pre nc kc by simp
  have r2: "record_sale shop ''s1'' 100 ([line ''A'' 3 8] @ line ''A'' 11 8 # []) =
        (Client_error 400 ''Not enough stock for Apple.'', shop)"
    using t2 pre pa lt by (simp add: format_name_def)
  have r3: "snd (record_sale shop ''s1'' 100 [line ''A'' 11 8]) = shop"
    using t1 nf by blast
  have r0: "record_sale shop ''s1'' 100 [] =
      (Client_error 400 ''Sale must contain at least one item.'', shop)"
    using t1 by blast
  show ?thesis using r0 one nc r1 pa lt r2 nf r3 by blast
qed

subsection \<open>The stored import price\<close>

text \<open>
  Claim C5. After a successful \<open>record_sale\<close> the sale document stored under the
  new id has one line item per line item of the request, and each is the client's line
  item with \<open>import_price\<close> replaced by the import price of the product read in the
  transaction (0 when the product has none), whatever the client sent in that field.
\<close>

theorem import_price_snapshot:
  assumes "record_sale s new_id now sale_items = (Success m, s')"
  shows "\<exists>sale_data. map_of (sales s') new_id = Some sale_data \<and>
           length (items sale_data) = length sale_items \<and>
           (\<forall>i<length sale_items. \<exists>p.
              products s (upper (case item_number (sale_items ! i) of None \<Rightarrow> [] | Some n \<Rightarrow> n))
                = Some p \<and>
              items sale_data ! i =
                (sale_items ! i)\<lparr>import_price :=
                   Some (case p_import_price p of None \<Rightarrow> 0 | Some x \<Rightarrow> x)\<rparr>)"
proof -
  have ok: "\<forall>it\<in>set sale_items. (\<exists>r. read_item s it = Inr r) \<and> has_fields it"
    and s': "s' = sold s new_id now sale_items"
    using assms by (simp_all add: record_sale_Success)
  have "\<forall>i<length sale_items. \<exists>p.
          products s (product_key (sale_items ! i)) = Some p \<and>
          items (sale_of s now sale_items) ! i =
            (sale_items ! i)\<lparr>import_price :=
               Some (case p_import_price p of None \<Rightarrow> 0 | Some x \<Rightarrow> x)\<rparr>"
  proof (intro allI impI)
    fix i assume i: "i < length sale_items"
    then obtain r where "read_item s (sale_items ! i) = Inr r" using ok by (meson nth_mem)
    from stamped_accepted [OF this] i
    show "\<exists>p. products s (product_key (sale_items ! i)) = Some p \<and>
          items (sale_of s now sale_items) ! i =
            (sale_items ! i)\<lparr>import_price :=
               Some (case p_import_price p of None \<Rightarrow> 0 | Some x \<Rightarrow> x)\<rparr>"
      by (auto simp: sale_of_def)
  qed
  then show ?thesis
    unfolding s' by (simp add: sales_sold sale_of_def product_key_def)
qed

theorem import_price_snapshot_witness:
  "record_sale shop ''s1'' 100 [forged] =
     (Success ''Sale recorded successfully!'', snd (record_sale shop ''s1'' 100 [forged]))
   \<and> (\<exists>sale_data. map_of (sales (snd (record_sale shop ''s1'' 100 [forged]))) ''s1'' = Some sale_data \<and>
           length (items sale_data) = length [forged] \<and>
           (\<forall>i<length [forged]. \<exists>p.
              products shop (upper (case item_number ([forged] ! i) of None \<Rightarrow> [] | Some n \<Rightarrow> n))
                = Some p \<and>
              items sale_data ! i =
                ([forged] ! i)\<lparr>import_price :=
                   Some (case p_import_price p of None \<Rightarrow> 0 | Some x \<Rightarrow> x)\<rparr>))"
proof -
  have "fst (record_sale shop ''s1'' 100 [forged]) = Success ''Sale recorded successfully!''"
    by code_simp
  then have h: "record_sale shop ''s1'' 100 [forged] =
     (Success ''Sale recorded successfully!'', snd (record_sale shop ''s1'' 100 [forged]))"
    by (metis prod.collapse)
  show ?thesis using h import_price_snapshot [OF h] by blast
qed

subsection \<open>Quantities after a sale\<close>

text \<open>
  When the line items of an accepted sale name pairwise different products, each product
  loses the quantity its line item requests and does not go below zero.
\<close>

lemma distinct_products_decrement:
  assumes "record_sale s new_id now sale_items = (Success m, s')"
    and "distinct (map product_key sale_items)" "it \<in> set sale_items"
  shows "\<exists>p. products s (product_key it) = Some p \<and>
           products s' (product_key it) =
             Some (p\<lparr>p_quantity := Some (current_quantity p - quantity_sold it)\<rparr>) \<and>
           0 \<le> current_quantity p - quantity_sold it"
proof -
  have ok: "\<forall>it\<in>set sale_items. (\<exists>r. read_item s it = Inr r) \<and> has_fields it"
    and s': "s' = sold s new_id now sale_items"
    using assms(1) by (simp_all add: record_sale_Success)
  obtain r where r: "read_item s it = Inr r" using ok assms(3) by blast
  obtain p where p: "products s (product_key it) = Some p"
    "quantity_sold it \<le> current_quantity p"
    using stamped_accepted [OF r] by blast
  show ?thesis
    unfolding s' using sold_quantity [OF assms(2,3) r p(1)] p by simp
qed

text \<open>
  Claim C1. The claim takes the stock after a sale to be the stock read in the
  transaction minus the sum of the quantities of all line items naming the product. Two
  line items that name the same product both read the committed quantity, and the
  second assignment to \<open>product_refs_to_update\<close> replaces the first: with 10 on hand, a
  sale of 3 and 4 of the same product is accepted and leaves 6, where the claim gives 3.
\<close>

theorem repeated_product_last_item_wins:
  "fst (record_sale shop ''s1'' 100 [line ''A'' 3 8, line ''A'' 4 8]) =
     Success ''Sale recorded successfully!''
   \<and> map_option current_quantity (products shop ''A'') = Some 10
   \<and> map_option current_quantity
       (products (snd (record_sale shop ''s1'' 100 [line ''A'' 3 8, line ''A'' 4 8])) ''A'') = Some 6"
  by code_simp

text \<open>
  The stock check too looks at each line item alone: 8 and 8 of a product with 10 on
  hand are sold, and 2 remain.
\<close>

lemma repeated_product_oversold:
  "fst (record_sale shop ''s1'' 100 [line ''A'' 8 8, line ''A'' 8 8]) =
     Success ''Sale recorded successfully!''
   \<and> map_option current_quantity
       (products (snd (record_sale shop ''s1'' 100 [line ''A'' 8 8, line ''A'' 8 8])) ''A'') = Some 2"
  by code_simp







section \<open>Deleting a sale\<close>

lemma restore_item_stamped: "restore_item (stamped s it) = restore_item it"
  by (simp add: restore_item_def stamped_fields split: option.splits)

lemma restore_writes_sold:
  "restore_stock_and_delete_sale (sold s new_id now its) new_id =
     Inr (concat (map restore_item its) @ [Delete_sale new_id])"
  by (simp add: restore_stock_and_delete_sale_def sales_sold sale_of_def o_def
      restore_item_stamped)

lemma commit_restore:
  assumes "distinct (map product_key its)"
    and "\<forall>it\<in>set its. item_number it = Some (product_key it) \<and> product_key it \<noteq> [] \<and>
           0 \<le> quantity_sold it \<and> products s (product_key it) \<noteq> None"
  shows "\<exists>s'. commit s (concat (map restore_item its)) = Inr s' \<and> sales s' = sales s \<and>
           (\<forall>k. k \<notin> product_key ` set its \<longrightarrow> products s' k = products s k) \<and>
           (\<forall>it\<in>set its. map_option current_quantity (products s' (product_key it)) =
               map_option (\<lambda>p. current_quantity p + quantity_sold it) (products s (product_key it)))"
  using assms
proof (induction its arbitrary: s)
  case Nil
  show ?case by simp
next
  case (Cons it rest)
  obtain p where p: "products s (product_key it) = Some p" using Cons.prems(2) by auto
  have it: "item_number it = Some (product_key it)" "product_key it \<noteq> []" "0 \<le> quantity_sold it"
    using Cons.prems(2) by auto
  have fresh: "product_key it \<notin> product_key ` set rest" using Cons.prems(1) by auto
  define s1 where "s1 = (if 0 < quantity_sold it
     then s\<lparr>products := (products s)(product_key it \<mapsto>
            p\<lparr>p_quantity := Some (case p_quantity p of None \<Rightarrow> quantity_sold it
                                 | Some q \<Rightarrow> q + quantity_sold it)\<rparr>)\<rparr>
     else s)"
  have first: "commit s (restore_item it) = Inr s1"
    using p it by (simp add: restore_item_def s1_def)
  have s1_sales: "sales s1 = sales s" by (simp add: s1_def)
  have s1_other: "\<And>k. k \<noteq> product_key it \<Longrightarrow> products s1 k = products s k"
    by (simp add: s1_def)
  have s1_it: "map_option current_quantity (products s1 (product_key it)) =
      Some (current_quantity p + quantity_sold it)"
    using p it(3) by (auto simp: s1_def current_quantity_def split: option.splits)
  have prems1: "\<forall>x\<in>set rest. item_number x = Some (product_key x) \<and> product_key x \<noteq> [] \<and>
           0 \<le> quantity_sold x \<and> products s1 (product_key x) \<noteq> None"
    using Cons.prems(2) fresh s1_other by (metis image_eqI list.set_intros(2))
  have d: "distinct (map product_key rest)" using Cons.prems(1) by simp
  obtain s' where s': "commit s1 (concat (map restore_item rest)) = Inr s'" "sales s' = sales s1"
    "\<forall>k. k \<notin> product_key ` set rest \<longrightarrow> products s' k = products s1 k"
    "\<forall>x\<in>set rest. map_option current_quantity (products s' (product_key x)) =
               map_option (\<lambda>p. current_quantity p + quantity_sold x) (products s1 (product_key x))"
    using Cons.IH [OF d prems1] by blast
  have c: "commit s (concat (map restore_item (it # rest))) = Inr s'"
    using first s'(1) by (simp add: commit_append)
  have a: "\<forall>k. k \<notin> product_key ` set (it # rest) \<longrightarrow> products s' k = products s k"
    using s'(3) s1_other by simp
  have b: "\<forall>x\<in>set (it # rest). map_option current_quantity (products s' (product_key x)) =
               map_option (\<lambda>p. current_quantity p + quantity_sold x) (products s (product_key x))"
  proof
    fix x assume x: "x \<in> set (it # rest)"
    show "map_option current_quantity (products s' (product_key x)) =
               map_option (\<lambda>p. current_quantity p + quantity_sold x) (products s (product_key x))"
    proof (cases "x = it")
      case True
      have "products s' (product_key it) = products s1 (product_key it)"
        using s'(3) fresh by blast
      then show ?thesis using True s1_it p by simp
    next
      case False
      then have xr: "x \<in> set rest" using x by simp
      then have "product_key x \<noteq> product_key it" using fresh by (metis image_eqI)
      then show ?thesis using s'(4) xr s1_other by simp
    qed
  qed
  show ?case using c a b s'(2) s1_sales by auto
qed

text \<open>
  Claim C4, as amended. Take a sale that \<open>record_sale\<close> accepts, whose line items carry
  non-empty item numbers already in upper case, name pairwise different products and
  request non-negative quantities. Then \<open>delete_sale\<close> on the sale just created succeeds,
  every product holds the quantity it held before the sale, and the sale document is
  gone, all in the one commit.
\<close>

theorem sale_then_delete_restores:
  assumes "record_sale s new_id now sale_items = (Success m, s1)"
    and "distinct (map product_key sale_items)"
    and "\<forall>it\<in>set sale_items. \<exists>n. item_number it = Some n \<and> n \<noteq> [] \<and> upper n = n \<and>
           0 \<le> quantity_sold it"
  shows "\<exists>s2. delete_sale s1 new_id = (Success ''Sale deleted and stock restored.'', s2) \<and>
              (\<forall>k. map_option current_quantity (products s2 k) =
                   map_option current_quantity (products s k)) \<and>
              map_of (sales s2) new_id = None"
proof -
  have ok: "\<forall>it\<in>set sale_items. (\<exists>r. read_item s it = Inr r) \<and> has_fields it"
    and s1: "s1 = sold s new_id now sale_items"
    using assms(1) by (simp_all add: record_sale_Success)
  have key: "\<forall>it\<in>set sale_items. item_number it = Some (product_key it) \<and> product_key it \<noteq> []"
    using assms(3) by (fastforce simp: product_key_def)
  have after: "\<forall>it\<in>set sale_items. \<exists>p. products s (product_key it) = Some p \<and>
      products s1 (product_key it) =
        Some (p\<lparr>p_quantity := Some (current_quantity p - quantity_sold it)\<rparr>)"
  proof
    fix it assume it: "it \<in> set sale_items"
    then obtain r where r: "read_item s it = Inr r" using ok by blast
    then obtain p where p: "products s (product_key it) = Some p"
      using stamped_accepted by blast
    show "\<exists>p. products s (product_key it) = Some p \<and>
      products s1 (product_key it) =
        Some (p\<lparr>p_quantity := Some (current_quantity p - quantity_sold it)\<rparr>)"
      unfolding s1 using sold_quantity [OF assms(2) it r p] p by blast
  qed
  have pre: "\<forall>it\<in>set sale_items. item_number it = Some (product_key it) \<and> product_key it \<noteq> [] \<and>
           0 \<le> quantity_sold it \<and> products s1 (product_key it) \<noteq> None"
    using key assms(3) after by fastforce
  obtain s' where s': "commit s1 (concat (map restore_item sale_items)) = Inr s'"
    "sales s' = sales s1"
    "\<forall>k. k \<notin> product_key ` set sale_items \<longrightarrow> products s' k = products s1 k"
    "\<forall>it\<in>set sale_items. map_option current_quantity (products s' (product_key it)) =
        map_option (\<lambda>p. current_quantity p + quantity_sold it) (products s1 (product_key it))"
    using commit_restore [OF assms(2) pre] by blast
  let ?s2 = "s'\<lparr>sales := AList.delete new_id (sales s')\<rparr>"
  have "transactional s1 (restore_stock_and_delete_sale s1 new_id) = Inr ?s2"
    unfolding s1 restore_writes_sold using s'(1) [unfolded s1]
    by (simp add: transactional_def commit_append)
  then have d: "delete_sale s1 new_id = (Success ''Sale deleted and stock restored.'', ?s2)"
    by (simp add: delete_sale_def)
  have q: "\<forall>k. map_option current_quantity (products ?s2 k) =
               map_option current_quantity (products s k)"
  proof
    fix k
    show "map_option current_quantity (products ?s2 k) = map_option current_quantity (products s k)"
    proof (cases "k \<in> product_key ` set sale_items")
      case False
      then show ?thesis using s'(3) sold_other [of k sale_items s new_id now] s1 by simp
    next
      case True
      then obtain it where it: "it \<in> set sale_items" "k = product_key it" by blast
      obtain p where p: "products s (product_key it) = Some p"
        "products s1 (product_key it) =
           Some (p\<lparr>p_quantity := Some (current_quantity p - quantity_sold it)\<rparr>)"
        using after it(1) by blast
      have "map_option current_quantity (products s' (product_key it)) =
          Some (current_quantity (p\<lparr>p_quantity := Some (current_quantity p - quantity_sold it)\<rparr>)
                + quantity_sold it)"
        using s'(4) it(1) p(2) by simp
      then show ?thesis using p(1) it(2) by (simp add: current_quantity_def)
    qed
  qed
  have "map_of (sales ?s2) new_id = None" by (simp add: delete_conv')
  with d q show ?thesis by blast
qed

theorem sale_then_delete_restores_witness:
  "record_sale shop ''s1'' 100 [line ''A'' 3 8, line ''B'' 0 3] =
     (Success ''Sale recorded successfully!'',
      snd (record_sale shop ''s1'' 100 [line ''A'' 3 8, line ''B'' 0 3]))
   \<and> distinct (map product_key [line ''A'' 3 8, line ''B'' 0 3])
   \<and> (\<exists>n. item_number (line ''A'' 3 8) = Some n \<and> n \<noteq> [] \<and> upper n = n \<and>
           0 \<le> quantity_sold (line ''A'' 3 8))
   \<and> (\<exists>n. item_number (line ''B'' 0 3) = Some n \<and> n \<noteq> [] \<and> upper n = n \<and>
           0 \<le> quantity_sold (line ''B'' 0 3))
   \<and> (\<exists>s2. delete_sale (snd (record_sale shop ''s1'' 100 [line ''A'' 3 8, line ''B'' 0 3])) ''s1'' =
              (Success ''Sale deleted and stock restored.'', s2) \<and>
            (\<forall>k. map_option current_quantity (products s2 k) =
                 map_option current_quantity (products shop k)) \<and>
            map_of (sales s2) ''s1'' = None)"
proof -
  have "fst (record_sale shop ''s1'' 100 [line ''A'' 3 8, line ''B'' 0 3]) =
      Success ''Sale recorded successfully!''"
    by code_simp
  then have h1: "record_sale shop ''s1'' 100 [line ''A'' 3 8, line ''B'' 0 3] =
     (Success ''Sale recorded successfully!'',
      snd (record_sale shop ''s1'' 100 [line ''A'' 3 8, line ''B'' 0 3]))"
    by (metis prod.collapse)
  have ka: "product_key (line ''A'' 3 8) = ''A''" by code_simp
  have kb: "product_key (line ''B'' 0 3) = ''B''" by code_simp
  have h2: "distinct (map product_key [line ''A'' 3 8, line ''B'' 0 3])"
    by (simp add: ka kb)
  have ua: "upper ''A'' = ''A''" by code_simp
  have ub: "upper ''B'' = ''B''" by code_simp
  have a: "\<exists>n. item_number (line ''A'' 3 8) = Some n \<and> n \<noteq> [] \<and> upper n = n \<and>
           0 \<le> quantity_sold (line ''A'' 3 8)"
    using ua by (simp add: line_def quantity_sold_def)
  have b: "\<exists>n. item_number (line ''B'' 0 3) = Some n \<and> n \<noteq> [] \<and> upper n = n \<and>
           0 \<le> quantity_sold (line ''B'' 0 3)"
    using ub by (simp add: line_def quantity_sold_def)
  have h3: "\<forall>it\<in>set [line ''A'' 3 8, line ''B'' 0 3].
      \<exists>n. item_number it = Some n \<and> n \<noteq> [] \<and> upper n = n \<and> 0 \<le> quantity_sold it"
    using a b by simp
  show ?thesis using h1 h2 a b sale_then_delete_restores [OF h1 h2 h3] by blast
qed

text \<open>
  The claim as stated, for every accepted item list, fails on a negative quantity:
  \<open>record_sale\<close> accepts it and raises the stock from 10 to 13, and \<open>delete_sale\<close>
  restores only line items with \<open>quantity_restored > 0\<close>, so the stock stays at 13.
\<close>

theorem negative_sale_not_restored_counterexample:
  "fst (record_sale shop ''s1'' 100 [line ''A'' (- 3) 8]) = Success ''Sale recorded successfully!''
   \<and> fst (delete_sale (snd (record_sale shop ''s1'' 100 [line ''A'' (- 3) 8])) ''s1'') =
       Success ''Sale deleted and stock restored.''
   \<and> map_option current_quantity (products shop ''A'') = Some 10
   \<and> map_option current_quantity
       (products (snd (delete_sale (snd (record_sale shop ''s1'' 100 [line ''A'' (- 3) 8])) ''s1''))
          ''A'') = Some 13"
  by code_simp

subsection \<open>The key of the product to restore\<close>

lemma upper_char_idem: "upper_char (upper_char c) = upper_char c"
proof (cases "97 \<le> (of_char c :: nat) \<and> (of_char c :: nat) \<le> 122")
  case True
  let ?d = "char_of ((of_char c :: nat) - 32) :: char"
  have up: "upper_char c = ?d"
    unfolding upper_char_def Let_def using True by (rule if_P)
  have "(of_char c :: nat) - 32 < 256" using True by arith
  then have eq: "(of_char ?d :: nat) = of_char c - 32"
    by simp
  have "\<not> (97 \<le> (of_char c :: nat) - 32)" using True by arith
  then have "\<not> (97 \<le> (of_char ?d :: nat) \<and> (of_char ?d :: nat) \<le> 122)"
    unfolding eq by simp
  then have "upper_char ?d = ?d"
    unfolding upper_char_def Let_def by (rule if_not_P)
  then show ?thesis unfolding up .
next
  case False
  then have "upper_char c = c"
    unfolding upper_char_def Let_def by (rule if_not_P)
  then show ?thesis by simp
qed

lemma upper_idem: "upper (upper n) = upper n"
  by (simp add: upper_def upper_char_idem)

lemma add_update_product_keys:
  "dom (products (snd (add_update_product s0 form))) \<subseteq>
     insert (upper (case f_item_number form of None \<Rightarrow> [] | Some n \<Rightarrow> n)) (dom (products s0))"
  by (auto simp: add_update_product_def Let_def)

lemma add_update_product_stores:
  assumes "f_item_number form = Some n0" "n0 \<noteq> []"
  shows "fst (add_update_product s0 form) = Success ''Product saved successfully.''"
    and "products (snd (add_update_product s0 form)) (upper n0) =
           Some (merge_product (products s0 (upper n0)) form)"
    and "\<forall>k. k \<noteq> upper n0 \<longrightarrow> products (snd (add_update_product s0 form)) k = products s0 k"
proof -
  have "upper n0 \<noteq> []" using assms(2) by (simp add: upper_def)
  then have "add_update_product s0 form =
      (Success ''Product saved successfully.'',
       s0\<lparr>products := (products s0)(upper n0 \<mapsto> merge_product (products s0 (upper n0)) form)\<rparr>)"
    using assms(1) by (simp add: add_update_product_def Let_def)
  then show "fst (add_update_product s0 form) = Success ''Product saved successfully.''"
    and "products (snd (add_update_product s0 form)) (upper n0) =
           Some (merge_product (products s0 (upper n0)) form)"
    and "\<forall>k. k \<noteq> upper n0 \<longrightarrow> products (snd (add_update_product s0 form)) k = products s0 k"
    by simp_all
qed

text \<open>
  Claim C9. \<open>add_update_product\<close>, given a form with a non-empty item number
  \<open>n0\<close>, succeeds and stores the product (the form merged into what was there)
  under \<open>upper n0\<close>, leaving every other key as it was; whatever the form, it creates
  no document under another key. A successful \<open>record_sale\<close> stores every line item's
  \<open>item_number\<close> as the client sent it; for a line item whose item number \<open>n\<close> is
  not in upper case and whose quantity is positive, the sale's transaction updates the
  document \<open>upper n\<close> (and never \<open>n\<close>), while the transaction of
  \<open>delete_sale\<close> increments the document \<open>n\<close>, and increments \<open>upper n\<close> only
  if some line item carries that very text.
\<close>

theorem restore_key_not_normalised:
  assumes "record_sale s new_id now sale_items = (Success m, s')"
    and "it \<in> set sale_items" "item_number it = Some n" "upper n \<noteq> n" "0 < quantity_sold it"
  shows "(f_item_number form = Some n0 \<and> n0 \<noteq> [] \<longrightarrow>
            fst (add_update_product s0 form) = Success ''Product saved successfully.'' \<and>
            products (snd (add_update_product s0 form)) (upper n0) =
              Some (merge_product (products s0 (upper n0)) form) \<and>
            (\<forall>k. k \<noteq> upper n0 \<longrightarrow>
                 products (snd (add_update_product s0 form)) k = products s0 k))
         \<and> dom (products (snd (add_update_product s0 form))) \<subseteq>
           insert (upper (case f_item_number form of None \<Rightarrow> [] | Some n \<Rightarrow> n)) (dom (products s0))
         \<and> (\<exists>sale_data. map_of (sales s') new_id = Some sale_data \<and>
               map item_number (items sale_data) = map item_number sale_items)
         \<and> (\<exists>ws new_quantity. update_in_transaction s new_id now sale_items = Inr ws \<and>
               Update_quantity (upper n) new_quantity \<in> set ws \<and>
               (\<forall>k v. Increment_quantity k v \<notin> set ws \<and> Update_quantity n v \<notin> set ws))
         \<and> (\<exists>ws'. restore_stock_and_delete_sale s' new_id = Inr ws' \<and>
               Increment_quantity n (quantity_sold it) \<in> set ws' \<and>
               (\<forall>v. Increment_quantity (upper n) v \<in> set ws' \<longrightarrow>
                    (\<exists>x\<in>set sale_items. item_number x = Some (upper n))))"
proof -
  have ok: "\<forall>it\<in>set sale_items. (\<exists>r. read_item s it = Inr r) \<and> has_fields it"
    and s': "s' = sold s new_id now sale_items"
    and f: "fits s sale_items"
    using assms(1) by (simp_all add: record_sale_Success)
  let ?ws = "map (\<lambda>it. Update_quantity (product_key it)
                 (the (last_staged s sale_items Map.empty (product_key it)))) sale_items
          @ [Set_sale new_id (sale_of s now sale_items)]"
  have k: "product_key it = upper n" using assms(3) by (simp add: product_key_def)
  have ws: "update_in_transaction s new_id now sale_items = Inr ?ws"
    using ok f by (simp add: update_in_transaction_Inr)
  have in_ws: "Update_quantity (upper n)
      (the (last_staged s sale_items Map.empty (upper n))) \<in> set ?ws"
    using assms(2) k by force
  have no_incr: "\<And>k v. Increment_quantity k v \<notin> set ?ws" by auto
  have no_verbatim: "\<And>v. Update_quantity n v \<notin> set ?ws"
  proof
    fix v assume "Update_quantity n v \<in> set ?ws"
    then obtain x where "x \<in> set sale_items" "n = product_key x" by auto
    then have "upper n = n"
      by (simp add: product_key_def upper_idem)
    with assms(4) show False by simp
  qed
  have a: "\<exists>ws new_quantity. update_in_transaction s new_id now sale_items = Inr ws \<and>
               Update_quantity (upper n) new_quantity \<in> set ws \<and>
               (\<forall>k v. Increment_quantity k v \<notin> set ws \<and> Update_quantity n v \<notin> set ws)"
    using ws in_ws no_incr no_verbatim by blast
  let ?ws' = "concat (map restore_item sale_items) @ [Delete_sale new_id]"
  have ws': "restore_stock_and_delete_sale s' new_id = Inr ?ws'"
    unfolding s' by (rule restore_writes_sold)
  have n: "n \<noteq> []" using assms(4) by (auto simp: upper_def)
  have "Increment_quantity n (quantity_sold it) \<in> set (restore_item it)"
    using assms(3,5) n by (simp add: restore_item_def)
  then have in_ws': "Increment_quantity n (quantity_sold it) \<in> set ?ws'"
    using assms(2) by auto
  have only: "\<forall>v. Increment_quantity (upper n) v \<in> set ?ws' \<longrightarrow>
                    (\<exists>x\<in>set sale_items. item_number x = Some (upper n))"
    by (auto simp: restore_item_def split: option.splits if_splits)
  have b: "\<exists>ws'. restore_stock_and_delete_sale s' new_id = Inr ws' \<and>
               Increment_quantity n (quantity_sold it) \<in> set ws' \<and>
               (\<forall>v. Increment_quantity (upper n) v \<in> set ws' \<longrightarrow>
                    (\<exists>x\<in>set sale_items. item_number x = Some (upper n)))"
    using ws' in_ws' only by blast
  have c: "\<exists>sale_data. map_of (sales s') new_id = Some sale_data \<and>
               map item_number (items sale_data) = map item_number sale_items"
    unfolding s' by (simp add: sales_sold sale_of_def stamped_fields o_def)
  have d: "f_item_number form = Some n0 \<and> n0 \<noteq> [] \<longrightarrow>
            fst (add_update_product s0 form) = Success ''Product saved successfully.'' \<and>
            products (snd (add_update_product s0 form)) (upper n0) =
              Some (merge_product (products s0 (upper n0)) form) \<and>
            (\<forall>k. k \<noteq> upper n0 \<longrightarrow>
                 products (snd (add_update_product s0 form)) k = products s0 k)"
    using add_update_product_stores [of form n0 s0] by blast
  show ?thesis using d add_update_product_keys [of s0 form] a b c by blast
qed

theorem restore_key_not_normalised_witness:
  "record_sale shop ''s1'' 100 [line ''a'' 3 8] =
     (Success ''Sale recorded successfully!'', snd (record_sale shop ''s1'' 100 [line ''a'' 3 8]))
   \<and> line ''a'' 3 8 \<in> set [line ''a'' 3 8] \<and> item_number (line ''a'' 3 8) = Some ''a''
   \<and> upper ''a'' \<noteq> ''a'' \<and> 0 < quantity_sold (line ''a'' 3 8)
   \<and> f_item_number cherry_form = Some ''c'' \<and> ''c'' \<noteq> []
   \<and> products shop ''C'' = None
   \<and> fst (add_update_product shop cherry_form) = Success ''Product saved successfully.''
   \<and> products (snd (add_update_product shop cherry_form)) ''C'' =
        Some \<lparr>p_item_name = Some ''Cherry'', p_quantity = Some 7, p_import_price = Some 3\<rparr>
   \<and> products (snd (add_update_product shop cherry_form)) ''c'' = None
   \<and> dom (products (snd (add_update_product shop cherry_form))) \<subseteq>
           insert (upper (case f_item_number cherry_form of None \<Rightarrow> [] | Some n \<Rightarrow> n))
             (dom (products shop))
   \<and> (\<exists>sale_data. map_of (sales (snd (record_sale shop ''s1'' 100 [line ''a'' 3 8]))) ''s1'' =
           Some sale_data \<and>
         map item_number (items sale_data) = map item_number [line ''a'' 3 8])
   \<and> (\<exists>ws new_quantity. update_in_transaction shop ''s1'' 100 [line ''a'' 3 8] = Inr ws \<and>
         Update_quantity (upper ''a'') new_quantity \<in> set ws \<and>
         (\<forall>k v. Increment_quantity k v \<notin> set ws \<and> Update_quantity ''a'' v \<notin> set ws))
   \<and> (\<exists>ws'. restore_stock_and_delete_sale (snd (record_sale shop ''s1'' 100 [line ''a'' 3 8])) ''s1''
           = Inr ws' \<and>
         Increment_quantity ''a'' (quantity_sold (line ''a'' 3 8)) \<in> set ws' \<and>
         (\<forall>v. Increment_quantity (upper ''a'') v \<in> set ws' \<longrightarrow>
              (\<exists>x\<in>set [line ''a'' 3 8]. item_number x = Some (upper ''a''))))"
proof -
  have "fst (record_sale shop ''s1'' 100 [line ''a'' 3 8]) = Success ''Sale recorded successfully!''"
    by code_simp
  then have h1: "record_sale shop ''s1'' 100 [line ''a'' 3 8] =
     (Success ''Sale recorded successfully!'', snd (record_sale shop ''s1'' 100 [line ''a'' 3 8]))"
    by (metis prod.collapse)
  have h2: "line ''a'' 3 8 \<in> set [line ''a'' 3 8]" by simp
  have h3: "item_number (line ''a'' 3 8) = Some ''a''" by (simp add: line_def)
  have u: "upper ''a'' = ''A''" by code_simp
  have h4: "upper ''a'' \<noteq> ''a''" unfolding u by simp
  have h5: "0 < quantity_sold (line ''a'' 3 8)" by (simp add: line_def quantity_sold_def)
  have g1: "f_item_number cherry_form = Some ''c''" by (simp add: cherry_form_def)
  have g2: "''c'' \<noteq> []" by simp
  have uc: "upper ''c'' = ''C''" by code_simp
  have none: "products shop ''C'' = None" by (simp add: shop_def)
  have m: "merge_product None cherry_form =
      \<lparr>p_item_name = Some ''Cherry'', p_quantity = Some 7, p_import_price = Some 3\<rparr>"
    by (simp add: merge_product_def cherry_form_def)
  have lower: "''c'' \<noteq> upper ''c''" unfolding uc by simp
  note t = restore_key_not_normalised [OF h1 h2 h3 h4 h5, of cherry_form "''c''" shop]
  have stored: "fst (add_update_product shop cherry_form) = Success ''Product saved successfully.''"
    "products (snd (add_update_product shop cherry_form)) ''C'' =
        Some \<lparr>p_item_name = Some ''Cherry'', p_quantity = Some 7, p_import_price = Some 3\<rparr>"
    using t g1 g2 none m unfolding uc by simp_all
  have "products (snd (add_update_product shop cherry_form)) ''c'' = products shop ''c''"
    using t g1 g2 lower by blast
  then have verbatim: "products (snd (add_update_product shop cherry_form)) ''c'' = None"
    by (simp add: shop_def)
  show ?thesis
    using h1 h2 h3 h4 h5 g1 g2 none stored verbatim t by blast
qed

text \<open>
  In the small shop the document \<open>a\<close> does not exist, the commit of \<open>delete_sale\<close>
  fails, and the stock of \<open>A\<close> stays at 7.
\<close>

lemma lowercase_sale_not_restored:
  "fst (delete_sale (snd (record_sale shop ''s1'' 100 [line ''a'' 3 8])) ''s1'') =
     Server_error (NotFound ''a'')
   \<and> map_option current_quantity
       (products (snd (delete_sale (snd (record_sale shop ''s1'' 100 [line ''a'' 3 8])) ''s1''))
          ''A'') = Some 7
   \<and> map_option current_quantity (products shop ''A'') = Some 10"
  by code_simp

section \<open>Deleting a product\<close>

lemma commit_deletes:
  "commit s (map (\<lambda>doc. Delete_sale (fst doc)) docs @ [Delete_product k]) =
     Inr (s\<lparr>products := (products s)(k := None),
           sales := fold (\<lambda>doc. AList.delete (fst doc)) docs (sales s)\<rparr>)"
  by (induction docs arbitrary: s) simp_all

text \<open>
  A sale that \<open>record_sale\<close> stored is never selected by the query of
  \<open>delete_product\<close>: each of its line items carries an \<open>import_price\<close>, so none
  equals a dictionary with the single key \<open>item_number\<close>.
\<close>

lemma recorded_sale_never_matches:
  assumes "record_sale s new_id now sale_items = (Success m, s')"
  shows "\<exists>sale_data. map_of (sales s') new_id = Some sale_data \<and>
           \<not> array_contains_item_number k sale_data"
proof -
  have s': "s' = sold s new_id now sale_items"
    and ok: "\<forall>it\<in>set sale_items. (\<exists>r. read_item s it = Inr r) \<and> has_fields it"
    using assms by (simp_all add: record_sale_Success)
  have "\<forall>x\<in>set (map (stamped s) sale_items). import_price x \<noteq> None"
  proof
    fix x assume "x \<in> set (map (stamped s) sale_items)"
    then obtain it where it: "it \<in> set sale_items" "x = stamped s it" by auto
    then obtain r where "read_item s it = Inr r" using ok by blast
    from stamped_accepted [OF this] it(2) show "import_price x \<noteq> None" by auto
  qed
  moreover have "import_price \<lparr>item_number = Some k, quantity = None, selling_price = None,
       import_price = None\<rparr> = None" by simp
  ultimately have "\<lparr>item_number = Some k, quantity = None, selling_price = None,
       import_price = None\<rparr> \<notin> set (map (stamped s) sale_items)" by blast
  then have "\<not> array_contains_item_number k (sale_of s now sale_items)"
    by (simp add: array_contains_item_number_def sale_of_def)
  then show ?thesis unfolding s' by (simp add: sales_sold)
qed

text \<open>
  Claim C2. The claim has \<open>delete_product\<close> delete exactly the sales with a line
  item of that item number. In the small shop, after a sale of product \<open>A\<close> has been
  recorded, \<open>delete_product\<close> on \<open>A\<close> succeeds and removes the product, and the sale
  that names \<open>A\<close> is still there.
\<close>

theorem delete_product_keeps_recorded_sale:
  "fst (record_sale shop ''s1'' 100 [line ''A'' 3 8]) = Success ''Sale recorded successfully!''
   \<and> fst (delete_product (snd (record_sale shop ''s1'' 100 [line ''A'' 3 8])) ''A'') =
       Success ''Product and associated sales deleted.''
   \<and> products (snd (delete_product (snd (record_sale shop ''s1'' 100 [line ''A'' 3 8])) ''A'')) ''A''
       = None
   \<and> map (\<lambda>doc. (fst doc, map item_number (items (snd doc))))
       (sales (snd (delete_product (snd (record_sale shop ''s1'' 100 [line ''A'' 3 8])) ''A'')))
       = [(''s1'', [Some ''A''])]"
  by code_simp

text \<open>
  Claim C6, as amended. \<open>delete_product\<close> never answers that the product is not
  found: it succeeds on every store and item number, whether the product exists or not
  and whether sales reference it or not, and afterwards the product document under the
  upper-cased item number is absent and every other product is as before.
\<close>

theorem delete_product_always_succeeds:
  "fst (delete_product s item_number_arg) = Success ''Product and associated sales deleted.''
   \<and> products (snd (delete_product s item_number_arg)) =
       (products s)(upper item_number_arg := None)"
  by (simp add: delete_product_def Let_def transactional_def
      delete_product_and_sales_transaction_def commit_deletes)

text \<open>
  The claim as stated lets the operation fail when the product never existed; in the
  small shop no product \<open>ZZ\<close> exists and the operation succeeds.
\<close>

theorem delete_missing_product_counterexample:
  "products shop (upper ''zz'') = None
   \<and> fst (delete_product shop ''zz'') = Success ''Product and associated sales deleted.''"
  by code_simp

section \<open>Listing sales\<close>

lemma items_loop_sum: "items_loop its t = t + sum_list (map line_profit its)"
  by (induction its arbitrary: t) (simp_all add: line_profit_def Let_def)

lemma sales_loop_eq:
  "sales_loop docs acc t =
     (acc @ docs, t + (\<Sum>doc\<leftarrow>docs. sum_list (map line_profit (items (snd doc)))))"
  by (induction docs arbitrary: acc t) (simp_all add: items_loop_sum)

text \<open>
  Claim C7. Whatever the filter, the \<open>total_profit\<close> that \<open>get_sales\<close> returns
  is the sum, over the line items of the sales it returns, of selling price minus
  import price, times quantity (a missing field counting as 0); the stored
  \<open>total_amount\<close> plays no part.
\<close>

theorem total_profit_recomputed:
  assumes "get_sales local_timestamp s date_filter month_filter = Inr (sales_list, total_profit)"
  shows "total_profit =
           (\<Sum>doc\<leftarrow>sales_list. \<Sum>item\<leftarrow>items (snd doc).
              ((case selling_price item of None \<Rightarrow> 0 | Some p \<Rightarrow> p)
               - (case import_price item of None \<Rightarrow> 0 | Some p \<Rightarrow> p))
              * of_int (case quantity item of None \<Rightarrow> 0 | Some q \<Rightarrow> q))"
proof -
  obtain bounds where b: "filter_bounds local_timestamp date_filter month_filter = Inr bounds"
    using assms by (auto simp: get_sales_def split: sum.splits)
  have "sales_loop (sales_query s bounds) [] 0 = (sales_list, total_profit)"
    using assms b by (simp add: get_sales_def)
  then have "sales_list = sales_query s bounds"
    and "total_profit = (\<Sum>doc\<leftarrow>sales_query s bounds. sum_list (map line_profit (items (snd doc))))"
    by (auto simp: sales_loop_eq)
  moreover have "line_profit = (\<lambda>item.
              ((case selling_price item of None \<Rightarrow> 0 | Some p \<Rightarrow> p)
               - (case import_price item of None \<Rightarrow> 0 | Some p \<Rightarrow> p))
              * of_int (case quantity item of None \<Rightarrow> 0 | Some q \<Rightarrow> q))"
    by (rule ext) (simp add: line_profit_def quantity_sold_def)
  ultimately show ?thesis by simp
qed

theorem total_profit_recomputed_witness:
  "get_sales utc_timestamp winter_shop None (Some (2023, 12)) =
     Inr ([(''d31'', winter_sale 1704067199), (''d01'', winter_sale 1701388800)], 18)
   \<and> (18::rat) =
           (\<Sum>doc\<leftarrow>[(''d31'', winter_sale 1704067199), (''d01'', winter_sale 1701388800)].
              \<Sum>item\<leftarrow>items (snd doc).
              ((case selling_price item of None \<Rightarrow> 0 | Some p \<Rightarrow> p)
               - (case import_price item of None \<Rightarrow> 0 | Some p \<Rightarrow> p))
              * of_int (case quantity item of None \<Rightarrow> 0 | Some q \<Rightarrow> q))"
proof -
  have h: "get_sales utc_timestamp winter_shop None (Some (2023, 12)) =
     Inr ([(''d31'', winter_sale 1704067199), (''d01'', winter_sale 1701388800)], 18)"
    by code_simp
  show ?thesis using h total_profit_recomputed [OF h] by simp
qed

lemma datetime_first:
  "1 \<le> y \<Longrightarrow> y \<le> 9999 \<Longrightarrow> 1 \<le> m \<Longrightarrow> m \<le> 12 \<Longrightarrow> datetime y m 1 = Inr (y, m, 1)"
  by (auto simp: datetime_def days_in_month_def)

lemma set_sales_query_Some:
  "set (sales_query s (Some (lo, hi))) =
     {doc \<in> set (sales s). lo \<le> timestamp (snd doc) \<and> timestamp (snd doc) < hi}"
  by (auto simp: sales_query_def)

text \<open>
  Claim C8, as amended. For a month filter other than January of the year 1 and
  December of the year 9999 (and no date filter), \<open>get_sales\<close> returns exactly the
  sales whose timestamp lies from the local midnight of the first of the month,
  inclusive, to the local midnight of the first of the next month, exclusive; for
  December the next month is January of the following year.
\<close>

theorem month_filter_range:
  assumes "1 \<le> y" "y \<le> 9999" "1 \<le> m" "m \<le> 12" "\<not> (y = 9999 \<and> m = 12)"
    and "\<not> (y = 1 \<and> m = 1)"
  shows "\<exists>sales_list total_profit.
           get_sales local_timestamp s None (Some (y, m)) = Inr (sales_list, total_profit) \<and>
           set sales_list =
             {doc \<in> set (sales s).
                local_timestamp (y, m, 1) \<le> timestamp (snd doc) \<and>
                timestamp (snd doc) <
                  local_timestamp (if m = 12 then (y + 1, 1, 1) else (y, m + 1, 1))}"
proof -
  let ?end = "if m = 12 then (y + 1, 1, 1) else (y, m + 1, 1)"
  have start: "datetime y m 1 = Inr (y, m, 1)"
    using assms by (simp add: datetime_first)
  have stop: "datetime (if m = 12 then y + 1 else y) (if m = 12 then 1 else m + 1) 1 = Inr ?end"
    using assms by (auto simp: datetime_first)
  have lo: "dt_timestamp local_timestamp (y, m, 1) = Inr (local_timestamp (y, m, 1))"
    using assms(6) by (simp add: dt_timestamp_def)
  have "?end \<noteq> (1, 1, 1)" using assms(1,3) by auto
  then have hi: "dt_timestamp local_timestamp ?end = Inr (local_timestamp ?end)"
    unfolding dt_timestamp_def by (rule if_not_P)
  have w: "where_timestamp local_timestamp (y, m, 1) ?end =
      Inr (Some (local_timestamp (y, m, 1), local_timestamp ?end))"
    unfolding where_timestamp_def lo hi by simp
  have b: "filter_bounds local_timestamp None (Some (y, m)) =
      Inr (Some (local_timestamp (y, m, 1), local_timestamp ?end))"
    unfolding filter_bounds_def Let_def using start stop w by simp
  have "get_sales local_timestamp s None (Some (y, m)) =
      Inr (sales_loop (sales_query s (Some (local_timestamp (y, m, 1), local_timestamp ?end))) [] 0)"
    using b by (simp add: get_sales_def)
  then show ?thesis
    by (simp add: sales_loop_eq set_sales_query_Some del: sales_loop.simps)
qed

theorem month_filter_range_witness:
  "(1::int) \<le> 2023 \<and> (2023::int) \<le> 9999 \<and> (1::int) \<le> 12 \<and> (12::int) \<le> 12 \<and>
   \<not> ((2023::int) = 9999 \<and> (12::int) = 12) \<and> \<not> ((2023::int) = 1 \<and> (12::int) = 1) \<and>
   (\<exists>sales_list total_profit.
      get_sales utc_timestamp winter_shop None (Some (2023, 12)) = Inr (sales_list, total_profit) \<and>
      set sales_list =
        {doc \<in> set (sales winter_shop).
           utc_timestamp (2023, 12, 1) \<le> timestamp (snd doc) \<and>
           timestamp (snd doc) <
             utc_timestamp (if (12::int) = 12 then (2023 + 1, 1, 1) else (2023, 12 + 1, 1))})"
  using month_filter_range [of 2023 12 utc_timestamp winter_shop] by simp

text \<open>
  The claim as stated, for every month filter, fails on December 9999: the end bound
  would be \<open>datetime(10000, 1, 1)\<close>, which the constructor refuses, and the request
  ends in an error.
\<close>

theorem month_filter_year_9999_counterexample:
  "get_sales utc_timestamp winter_shop None (Some (9999, 12)) =
     Inl (ValueError ''year is out of range'')"
  by code_simp

text \<open>
  It fails on January of the year 1 as well, on every machine: the start bound
  0001-01-01 has no timestamp.
\<close>

lemma month_filter_year_1_fails:
  "get_sales local_timestamp s None (Some (1, 1)) = Inl (ValueError ''year 0 is out of range'')"
  by (simp add: get_sales_def filter_bounds_def Let_def datetime_def days_in_month_def
      where_timestamp_def dt_timestamp_def)

end
